theory Spec2Isabelle
  imports Complex_Main "HOL-Library.AList"
begin

section \<open>Values shared by the three source files\<close>

text \<open>
  Python floats are modelled as real numbers; rounding is not modelled, and overflow
  only where a division can produce it (the carbon-to-nitrogen quotient).  The
  properties verified here are about comparisons, table lookups and clipping.
  A Python dict whose insertion order is observable is an association list updated
  with \<^const>\<open>AList.update\<close> (an existing key keeps its place, a new key goes to the
  end); a dict that is only read is a map.  Exceptions are values of \<open>error\<close>.
\<close>

datatype error = KeyError string | TypeError string | ValueError string


section \<open>utils.py: \<open>analyze_nutrient_suitability\<close>\<close>

text \<open>One \<open>{min, max, optimal}\<close> triple of \<open>plant_requirements\<close>.\<close>

record requirement =
  min_req :: real
  max_req :: real
  optimal_req :: real

text \<open>The dict stored under \<open>suitability[nutrient]\<close>.\<close>

record verdict =
  status :: string
  current :: real
  optimal :: real
  action :: string

text \<open>The \<open>if / elif / else\<close> chain of the loop body, giving \<open>(status, action)\<close>.\<close>

definition classify :: "string \<Rightarrow> real \<Rightarrow> requirement \<Rightarrow> string \<times> string" where
  "classify nutrient v req =
     (if v < min_req req then (''Low'', ''Increase '' @ nutrient)
      else if v > max_req req then (''High'', ''Reduce '' @ nutrient)
      else (''Optimal'', ''Maintain levels''))"

text \<open>The strings appended to \<open>recommendations\<close> under \<open>if status != 'Optimal'\<close>.\<close>

definition recommend :: "string \<Rightarrow> string \<Rightarrow> string list" where
  "recommend nutrient st =
     (if st \<noteq> ''Optimal'' then
        (if st = ''Low''
         then [''- '' @ nutrient @ '' is low. Consider supplementing with '' @ nutrient @ ''-rich materials.'']
         else [''- '' @ nutrient @ '' is high. Consider mixing with lower '' @ nutrient @ '' materials.''])
      else [])"

text \<open>
  The \<open>for nutrient in [...]\<close> loop.  A nutrient whose key \<open>f'{nutrient}_pct'\<close> is not in
  \<open>predictions\<close> is skipped; \<open>plant_info[nutrient]\<close> raises \<open>KeyError\<close> when the entry
  has no such nutrient.
\<close>

fun analyze_loop ::
  "(string \<rightharpoonup> real) \<Rightarrow> (string \<rightharpoonup> requirement) \<Rightarrow> string list \<Rightarrow>
   (string \<times> verdict) list \<Rightarrow> string list \<Rightarrow>
   error + ((string \<times> verdict) list \<times> string list)" where
  "analyze_loop predictions plant_info [] suitability recommendations =
     Inr (suitability, recommendations)"
| "analyze_loop predictions plant_info (nutrient # rest) suitability recommendations =
     (case predictions (nutrient @ ''_pct'') of
        None \<Rightarrow> analyze_loop predictions plant_info rest suitability recommendations
      | Some v \<Rightarrow>
          (case plant_info nutrient of
             None \<Rightarrow> Inl (KeyError nutrient)
           | Some req \<Rightarrow>
               analyze_loop predictions plant_info rest
                 (AList.update nutrient
                    \<lparr>status = fst (classify nutrient v req), current = v,
                     optimal = optimal_req req, action = snd (classify nutrient v req)\<rparr>
                    suitability)
                 (recommendations @ recommend nutrient (fst (classify nutrient v req)))))"

definition nutrients :: "string list" where
  "nutrients = [''Nitrogen'', ''Phosphorus'', ''Potassium'']"

definition analyze_nutrient_suitability ::
  "(string \<rightharpoonup> real) \<Rightarrow> (string \<rightharpoonup> requirement) \<Rightarrow>
   error + ((string \<times> verdict) list \<times> string list)" where
  "analyze_nutrient_suitability predictions plant_info =
     analyze_loop predictions plant_info nutrients [] []"


section \<open>plant\_database.py\<close>

text \<open>The nutrient triples of \<open>plant_requirements['Tomatoes']\<close>.\<close>

definition tomatoes :: "string \<rightharpoonup> requirement" where
  "tomatoes =
     [''Nitrogen'' \<mapsto> \<lparr>min_req = 1.5, max_req = 3.5, optimal_req = 2.5\<rparr>,
      ''Phosphorus'' \<mapsto> \<lparr>min_req = 0.3, max_req = 0.8, optimal_req = 0.5\<rparr>,
      ''Potassium'' \<mapsto> \<lparr>min_req = 1.2, max_req = 2.5, optimal_req = 1.8\<rparr>]"


section \<open>app.py: the carbon-to-nitrogen check\<close>

text \<open>
  \<open>predictions['Nitrogen_pct']\<close> is the numpy \<open>float64\<close> scalar returned by
  \<open>model.predict(input_data)[0]\<close>, so \<open>carbon_content / predictions['Nitrogen_pct']\<close>
  is numpy's scalar division: a zero divisor raises nothing, it gives \<open>inf\<close>, \<open>-inf\<close>
  or \<open>nan\<close> (with a RuntimeWarning), and the comparisons that follow are IEEE
  comparisons.  The quotient is therefore a real number or one of these three values.

  A quotient of two finite floats can also leave the range of \<open>float64\<close>: from
  \<open>float_overflow\<close> on (the midpoint between the largest finite float and \<open>2 ^ 1024\<close>)
  the division rounds to \<open>inf\<close>, and symmetrically to \<open>-inf\<close>, again without an exception;
  \<open>40.0 / 1e-320\<close> is \<open>inf\<close>.  Inside the range the quotient is taken as the real
  quotient: the rounding of a finite result is not modelled.
\<close>

datatype quotient = Finite real | PosInf | NegInf | NotANumber

definition float_overflow :: real where
  "float_overflow = 2 ^ 1024 - 2 ^ 970"

definition c_n_ratio :: "real \<Rightarrow> real \<Rightarrow> quotient" where
  "c_n_ratio carbon_content nitrogen =
     (if nitrogen = 0 then
        (if carbon_content > 0 then PosInf
         else if carbon_content < 0 then NegInf else NotANumber)
      else if carbon_content / nitrogen \<ge> float_overflow then PosInf
      else if carbon_content / nitrogen \<le> - float_overflow then NegInf
      else Finite (carbon_content / nitrogen))"

fun q_greater :: "quotient \<Rightarrow> real \<Rightarrow> bool" where
  "q_greater (Finite r) x = (r > x)"
| "q_greater PosInf x = True"
| "q_greater NegInf x = False"
| "q_greater NotANumber x = False"

fun q_less :: "quotient \<Rightarrow> real \<Rightarrow> bool" where
  "q_less (Finite r) x = (r < x)"
| "q_less PosInf x = False"
| "q_less NegInf x = True"
| "q_less NotANumber x = False"

text \<open>The three messages of the "General Recommendations" block, each with the ratio it prints.\<close>

datatype cn_message = CN_high quotient | CN_low quotient | CN_optimal quotient

definition general_recommendations :: "real \<Rightarrow> (string \<rightharpoonup> real) \<Rightarrow> error + cn_message" where
  "general_recommendations carbon_content predictions =
     (case predictions ''Nitrogen_pct'' of
        None \<Rightarrow> Inl (KeyError ''Nitrogen_pct'')
      | Some n \<Rightarrow>
          (let ratio = c_n_ratio carbon_content n in
           if q_greater ratio 30 then Inr (CN_high ratio)
           else if q_less ratio 15 then Inr (CN_low ratio)
           else Inr (CN_optimal ratio)))"


section \<open>app.py: tables\<close>

text \<open>
  A pandas DataFrame as \<open>read_csv\<close> builds it: a number of rows and the columns in their
  order, each a list of cells.  A cell is a number, a string or the missing value
  (\<open>NaN\<close>).  \<open>read_csv\<close> gives a column the dtype \<open>object\<close> exactly when one of its
  cells is a string, so \<open>data[col].dtype == 'object'\<close> is \<open>dtype_object\<close>.
  \<open>data[col] = series\<close> replaces an existing column in place and appends a new one.
  The functions of app.py change \<open>data\<close> in place and return it; here they return the
  new table.  The \<open>st.info\<close>, \<open>st.warning\<close> and \<open>st.write\<close> notices are not modelled.
\<close>

datatype cell = Num real | Str string | NaN

record table =
  nrows :: nat
  columns :: "(string \<times> cell list) list"

definition col :: "table \<Rightarrow> string \<Rightarrow> cell list option" where
  "col data c = map_of (columns data) c"

definition set_col :: "table \<Rightarrow> string \<Rightarrow> cell list \<Rightarrow> table" where
  "set_col data c cs = data\<lparr>columns := AList.update c cs (columns data)\<rparr>"

fun is_str :: "cell \<Rightarrow> bool" where
  "is_str (Str s) = True"
| "is_str c = False"

fun is_num :: "cell \<Rightarrow> bool" where
  "is_num (Num x) = True"
| "is_num c = False"

fun isna :: "cell \<Rightarrow> bool" where
  "isna NaN = True"
| "isna c = False"

definition dtype_object :: "cell list \<Rightarrow> bool" where
  "dtype_object cs = list_ex is_str cs"

definition DEFAULT_VALUES :: "(string \<times> cell) list" where
  "DEFAULT_VALUES =
     [(''Waste_Type'', Str ''Mixed''),
      (''Moisture_Content'', Num 50.0),
      (''pH_Level'', Num 6.5),
      (''Carbon_Content'', Num 35.0),
      (''Particle_Size_mm'', Num 10.0),
      (''Age_Days'', Num 30),
      (''Degradation_Rate'', Num 1.0)]"

definition CATEGORICAL_MAPPINGS :: "(string \<times> (string \<times> real) list) list" where
  "CATEGORICAL_MAPPINGS =
     [(''Moisture_Content'', [(''Low'', 30.0), (''Medium'', 50.0), (''High'', 70.0)]),
      (''pH_Level'', [(''Low'', 4.5), (''Medium'', 6.5), (''High'', 8.5)]),
      (''Carbon_Content'', [(''Low'', 25.0), (''Medium'', 35.0), (''High'', 45.0)]),
      (''Particle_Size_mm'', [(''Small'', 2.0), (''Medium'', 10.0), (''Large'', 25.0)]),
      (''Age_Days'', [(''Young'', 15), (''Medium'', 30), (''Old'', 60)]),
      (''Degradation_Rate'', [(''Slow'', 0.5), (''Medium'', 1.0), (''Fast'', 2.0)])]"

text \<open>\<open>Series.isin(mapping.keys())\<close> and \<open>Series.map(mapping)\<close>, cell by cell: \<open>map\<close> gives
  \<open>NaN\<close> for every value that is not a key of the dict.\<close>

fun isin :: "(string \<times> real) list \<Rightarrow> cell \<Rightarrow> bool" where
  "isin mapping (Str s) = (map_of mapping s \<noteq> None)"
| "isin mapping c = False"

fun map_cell :: "(string \<times> real) list \<Rightarrow> cell \<Rightarrow> cell" where
  "map_cell mapping (Str s) = (case map_of mapping s of Some x \<Rightarrow> Num x | None \<Rightarrow> NaN)"
| "map_cell mapping c = NaN"

fun convert_loop :: "(string \<times> (string \<times> real) list) list \<Rightarrow> table \<Rightarrow> table" where
  "convert_loop [] data = data"
| "convert_loop ((c, mapping) # rest) data =
     convert_loop rest
       (case col data c of
          None \<Rightarrow> data
        | Some cs \<Rightarrow>
            if dtype_object cs \<and> list_ex (isin mapping) cs
            then set_col data c (map (map_cell mapping) cs)
            else data)"

definition convert_categorical_to_numeric :: "table \<Rightarrow> table" where
  "convert_categorical_to_numeric data = convert_loop CATEGORICAL_MAPPINGS data"

text \<open>The first loop of \<open>handle_missing_data\<close>: an absent column is added with its default
  in every row.\<close>

fun fill_columns :: "(string \<times> cell) list \<Rightarrow> table \<Rightarrow> table" where
  "fill_columns [] data = data"
| "fill_columns ((c, default_value) # rest) data =
     fill_columns rest
       (if col data c = None then set_col data c (replicate (nrows data) default_value)
        else data)"

definition numeric_columns :: "string list" where
  "numeric_columns = [''Moisture_Content'', ''pH_Level'', ''Carbon_Content'',
                      ''Particle_Size_mm'', ''Age_Days'', ''Degradation_Rate'']"

text \<open>
  \<open>pd.to_numeric(series, errors='coerce')\<close> cell by cell.  How pandas reads a string as a
  number is the parameter \<open>parse\<close>; a string it cannot read becomes \<open>NaN\<close>.  With
  \<open>errors='coerce'\<close> the call raises for no cell of the three kinds, so the \<open>except\<close>
  branch of the source is never taken on a table.
\<close>

fun coerce :: "(string \<Rightarrow> real option) \<Rightarrow> cell \<Rightarrow> cell" where
  "coerce parse (Str s) = (case parse s of Some x \<Rightarrow> Num x | None \<Rightarrow> NaN)"
| "coerce parse c = c"

fun nums :: "cell list \<Rightarrow> real list" where
  "nums [] = []"
| "nums (Num x # cs) = x # nums cs"
| "nums (c # cs) = nums cs"

text \<open>\<open>Series.mean()\<close> skips the missing values and is \<open>NaN\<close> when nothing is left.\<close>

definition series_mean :: "cell list \<Rightarrow> cell" where
  "series_mean cs = (if nums cs = [] then NaN else Num (sum_list (nums cs) / real (length (nums cs))))"

definition fillna :: "cell list \<Rightarrow> cell \<Rightarrow> cell list" where
  "fillna cs m = map (\<lambda>c. if isna c then m else c) cs"

fun numeric_loop :: "(string \<Rightarrow> real option) \<Rightarrow> string list \<Rightarrow> table \<Rightarrow> table" where
  "numeric_loop parse [] data = data"
| "numeric_loop parse (c # rest) data =
     numeric_loop parse rest
       (case col data c of
          None \<Rightarrow> data
        | Some cs \<Rightarrow>
            (let data1 = set_col data c (map (coerce parse) cs) in
             if list_ex isna (map (coerce parse) cs)
             then set_col data1 c (fillna (map (coerce parse) cs) (series_mean (map (coerce parse) cs)))
             else data1))"

definition handle_missing_data :: "(string \<Rightarrow> real option) \<Rightarrow> table \<Rightarrow> table" where
  "handle_missing_data parse data =
     numeric_loop parse numeric_columns (fill_columns DEFAULT_VALUES data)"

text \<open>The two calls of the upload handler, in their order.\<close>

definition normalize :: "(string \<Rightarrow> real option) \<Rightarrow> table \<Rightarrow> table" where
  "normalize parse data = handle_missing_data parse (convert_categorical_to_numeric data)"


section \<open>utils.py: \<open>generate_synthetic_targets\<close>\<close>

text \<open>
  The values drawn by the four calls of \<open>np.random.uniform(lo, hi, len(data))\<close>, by row:
  they are parameters, so that a property proved for every \<open>draws\<close> holds for every
  outcome of the random generator.
\<close>

record draws =
  nitrogen_food :: "nat \<Rightarrow> real"
  nitrogen_garden :: "nat \<Rightarrow> real"
  phosphorus_food :: "nat \<Rightarrow> real"
  potassium_food :: "nat \<Rightarrow> real"

definition and_then :: "error + 'a \<Rightarrow> ('a \<Rightarrow> error + 'b) \<Rightarrow> error + 'b" where
  "and_then r f = (case r of Inl e \<Rightarrow> Inl e | Inr x \<Rightarrow> f x)"

text \<open>\<open>data[c]\<close> raises \<open>KeyError\<close> for a column that is not in the table.\<close>

definition get_col :: "table \<Rightarrow> string \<Rightarrow> error + cell list" where
  "get_col data c = (case col data c of None \<Rightarrow> Inl (KeyError c) | Some cs \<Rightarrow> Inr cs)"

fun cell_value :: "cell \<Rightarrow> real option" where
  "cell_value (Num x) = Some x"
| "cell_value c = None"

text \<open>
  \<open>series * k\<close> for a float \<open>k\<close>: a string cell raises \<open>TypeError\<close>, a missing value stays
  missing (\<open>None\<close>).
\<close>

definition times :: "cell list \<Rightarrow> real \<Rightarrow> error + real option list" where
  "times cs k =
     (if list_ex is_str cs then Inl (TypeError ''str * float'')
      else Inr (map (\<lambda>c. map_option (\<lambda>x. x * k) (cell_value c)) cs))"

text \<open>One row of \<open>(data['Waste_Type'] == label) * np.random.uniform(...)\<close>.\<close>

definition indicator :: "cell \<Rightarrow> string \<Rightarrow> real \<Rightarrow> real" where
  "indicator w label u = (if w = Str label then u else 0)"

text \<open>\<open>.clip(lo, hi)\<close> on one value; a missing value stays missing.\<close>

fun clip :: "real \<Rightarrow> real \<Rightarrow> real option \<Rightarrow> cell" where
  "clip lo hi None = NaN"
| "clip lo hi (Some x) = Num (min (max x lo) hi)"

definition nitrogen_series ::
  "draws \<Rightarrow> cell list \<Rightarrow> real option list \<Rightarrow> real option list \<Rightarrow> cell list" where
  "nitrogen_series d w m p =
     map (\<lambda>(i, wi, mi, pi).
            clip 0.05 5.0
              (case (mi, pi) of
                 (Some a, Some b) \<Rightarrow>
                   Some (indicator wi ''Food'' (nitrogen_food d i) +
                         indicator wi ''Garden'' (nitrogen_garden d i) + a - b)
               | _ \<Rightarrow> None))
         (zip [0..<length w] (zip w (zip m p)))"

definition phosphorus_series :: "draws \<Rightarrow> cell list \<Rightarrow> real option list \<Rightarrow> cell list" where
  "phosphorus_series d w c =
     map (\<lambda>(i, wi, ci).
            clip 0.01 2.0 (map_option (\<lambda>a. indicator wi ''Food'' (phosphorus_food d i) + a) ci))
         (zip [0..<length w] (zip w c))"

definition potassium_series :: "draws \<Rightarrow> cell list \<Rightarrow> real option list \<Rightarrow> cell list" where
  "potassium_series d w m =
     map (\<lambda>(i, wi, mi).
            clip 0.05 3.0 (map_option (\<lambda>a. indicator wi ''Food'' (potassium_food d i) + a) mi))
         (zip [0..<length w] (zip w m))"

text \<open>The three assignments, in the order of the source; each reads the table it is given.\<close>

definition set_nitrogen :: "draws \<Rightarrow> table \<Rightarrow> error + table" where
  "set_nitrogen d data =
     and_then (get_col data ''Waste_Type'') (\<lambda>w.
     and_then (and_then (get_col data ''Moisture_Content'') (\<lambda>m. times m 0.01)) (\<lambda>m.
     and_then (and_then (get_col data ''pH_Level'') (\<lambda>p. times p 0.1)) (\<lambda>p.
       Inr (set_col data ''Nitrogen_pct'' (nitrogen_series d w m p)))))"

definition set_phosphorus :: "draws \<Rightarrow> table \<Rightarrow> error + table" where
  "set_phosphorus d data =
     and_then (get_col data ''Waste_Type'') (\<lambda>w.
     and_then (and_then (get_col data ''Carbon_Content'') (\<lambda>c. times c 0.005)) (\<lambda>c.
       Inr (set_col data ''Phosphorus_pct'' (phosphorus_series d w c))))"

definition set_potassium :: "draws \<Rightarrow> table \<Rightarrow> error + table" where
  "set_potassium d data =
     and_then (get_col data ''Waste_Type'') (\<lambda>w.
     and_then (and_then (get_col data ''Moisture_Content'') (\<lambda>m. times m 0.008)) (\<lambda>m.
       Inr (set_col data ''Potassium_pct'' (potassium_series d w m))))"

definition generate_synthetic_targets :: "draws \<Rightarrow> table \<Rightarrow> error + table" where
  "generate_synthetic_targets d data =
     and_then (set_nitrogen d data) (\<lambda>data1.
     and_then (set_phosphorus d data1) (\<lambda>data2. set_potassium d data2))"


section \<open>app.py: the Train Model handler\<close>

definition target_variables :: "string list" where
  "target_variables = [''Nitrogen_pct'', ''Phosphorus_pct'', ''Potassium_pct'']"

text \<open>\<open>if not all(target in data.columns ...): data = generate_synthetic_targets(data)\<close>.\<close>

definition prepare_targets :: "draws \<Rightarrow> table \<Rightarrow> error + table" where
  "prepare_targets d data =
     (if \<not> list_all (\<lambda>target. col data target \<noteq> None) target_variables
      then generate_synthetic_targets d data
      else Inr data)"













section \<open>Properties of the suitability analyzer\<close>

lemma classify_cases:
  "fst (classify n v r) = ''Low'' \<or> fst (classify n v r) = ''High'' \<or> fst (classify n v r) = ''Optimal''"
  by (simp add: classify_def)

lemma update_fresh:
  "k \<notin> fst ` set al \<Longrightarrow> AList.update k v al = al @ [(k, v)]"
  by (induction al) auto

lemma analyze_loop_append:
  assumes "\<forall>n\<in>set ns. predictions (n @ ''_pct'') \<noteq> None \<longrightarrow> plant_info n \<noteq> None" and "distinct ns" and "set ns \<inter> fst ` set sacc = {}"
  shows "analyze_loop predictions plant_info ns sacc racc =
     Inr (sacc @ concat (map (\<lambda>n. case predictions (n @ ''_pct'') of None \<Rightarrow> []
              | Some v \<Rightarrow> [(n, \<lparr>status = fst (classify n v (the (plant_info n))), current = v,
                     optimal = optimal_req (the (plant_info n)), action = snd (classify n v (the (plant_info n)))\<rparr>)]) ns),
          racc @ concat (map (\<lambda>n. case predictions (n @ ''_pct'') of None \<Rightarrow> []
              | Some v \<Rightarrow> recommend n (fst (classify n v (the (plant_info n))))) ns))"
  using assms
proof (induction ns arbitrary: sacc racc)
  case Nil
  then show ?case by simp
next
  case (Cons n ns)
  show ?case
  proof (cases "predictions (n @ ''_pct'')")
    case None
    with Cons show ?thesis by simp
  next
    case (Some v)
    with Cons.prems(1) obtain r where r: "plant_info n = Some r" by auto
    have fresh: "n \<notin> fst ` set sacc" using Cons.prems(3) by auto
    let ?vd = "\<lparr>status = fst (classify n v r), current = v,
                     optimal = optimal_req r, action = snd (classify n v r)\<rparr>"
    have "set ns \<inter> fst ` set (sacc @ [(n, ?vd)]) = {}"
      using Cons.prems(2,3) by auto
    with Cons.IH[of "sacc @ [(n, ?vd)]"] Cons.prems(1,2) Some r fresh
    show ?thesis by (simp add: update_fresh)
  qed
qed

lemma map_of_entries:
  assumes "distinct ns" "n \<in> set ns"
  shows "map_of (concat (map (\<lambda>n. case P n of None \<Rightarrow> [] | Some v \<Rightarrow> [(n, f n v)]) ns)) n =
         (case P n of None \<Rightarrow> None | Some v \<Rightarrow> Some (f n v))"
  using assms
proof (induction ns)
  case Nil then show ?case by simp
next
  case (Cons a ns)
  have notin: "\<And>m. m \<notin> set ns \<Longrightarrow> map_of (concat (map (\<lambda>n. case P n of None \<Rightarrow> [] | Some v \<Rightarrow> [(n, f n v)]) ns)) m = None"
    by (induction ns) (auto split: option.splits)
  show ?case
  proof (cases "n = a")
    case True
    with Cons.prems notin[of a] show ?thesis by (auto split: option.splits simp: map_add_def)
  next
    case False
    with Cons show ?thesis by (auto split: option.splits simp: map_add_def)
  qed
qed

lemma fst_entries:
  "map fst (concat (map (\<lambda>n. case P n of None \<Rightarrow> [] | Some v \<Rightarrow> [(n, f n v)]) ns)) =
   filter (\<lambda>n. P n \<noteq> None) ns"
  by (induction ns) (auto split: option.splits)

lemma recommend_known:
  assumes "st = ''Low'' \<or> st = ''High'' \<or> st = ''Optimal''"
  shows "recommend n st =
     (if st = ''Low''
      then [''- '' @ n @ '' is low. Consider supplementing with '' @ n @ ''-rich materials.'']
      else if st = ''High''
      then [''- '' @ n @ '' is high. Consider mixing with lower '' @ n @ '' materials.'']
      else [])"
  using assms unfolding recommend_def by (elim disjE) simp_all

lemma rec_length:
  assumes "\<forall>(n, vd)\<in>set xs. status vd = ''Low'' \<or> status vd = ''High'' \<or> status vd = ''Optimal''"
  shows "length (concat (map (\<lambda>(n, vd).
               if status vd = ''Low''
               then [''- '' @ n @ '' is low. Consider supplementing with '' @ n @ ''-rich materials.'']
               else if status vd = ''High''
               then [''- '' @ n @ '' is high. Consider mixing with lower '' @ n @ '' materials.'']
               else []) xs)) = length (filter (\<lambda>(n, vd). status vd \<noteq> ''Optimal'') xs)"
  using assms
proof (induction xs)
  case Nil then show ?case by simp
next
  case (Cons p xs)
  obtain n vd where p: "p = (n, vd)" by (cases p)
  from Cons.prems p have "status vd = ''Low'' \<or> status vd = ''High'' \<or> status vd = ''Optimal''" by simp
  moreover from Cons have "length (concat (map (\<lambda>(n, vd).
               if status vd = ''Low''
               then [''- '' @ n @ '' is low. Consider supplementing with '' @ n @ ''-rich materials.'']
               else if status vd = ''High''
               then [''- '' @ n @ '' is high. Consider mixing with lower '' @ n @ '' materials.'']
               else []) xs)) = length (filter (\<lambda>(n, vd). status vd \<noteq> ''Optimal'') xs)" by simp
  ultimately show ?case unfolding p by (elim disjE) simp_all
qed

text \<open>
  Claim C1.  For every prediction and every plant requirement entry that holds the three
  nutrients with \<open>min \<le> max\<close>, the analyzer returns one verdict for each nutrient
  whose key is in the prediction, in the order Nitrogen, Phosphorus, Potassium: Low with
  the action "Increase" when the value is strictly below \<open>min\<close>, High with "Reduce"
  when it is strictly above \<open>max\<close>, Optimal with "Maintain levels" otherwise, the two
  bounds included.  The recommendations are one string for each verdict that is not
  Optimal, in the same order, and none when every verdict is Optimal.  The prediction
  \<open>{Nitrogen_pct: 1.0, Phosphorus_pct: 0.5, Potassium_pct: 1.8}\<close> against Tomatoes gives
  Low, Optimal, Optimal and the single recommendation for Nitrogen.
\<close>

theorem suitability_classification:
  assumes entry: "\<forall>n\<in>set nutrients. \<exists>r. plant_info n = Some r \<and> min_req r \<le> max_req r"
  shows "(\<exists>suit recs. analyze_nutrient_suitability predictions plant_info = Inr (suit, recs) \<and>
      map fst suit = filter (\<lambda>n. predictions (n @ ''_pct'') \<noteq> None) nutrients \<and>
      (\<forall>n v r. n \<in> set nutrients \<longrightarrow> predictions (n @ ''_pct'') = Some v \<longrightarrow> plant_info n = Some r \<longrightarrow>
         (\<exists>vd. map_of suit n = Some vd \<and> current vd = v \<and> optimal vd = optimal_req r \<and>
            (v < min_req r \<longrightarrow> status vd = ''Low'' \<and> action vd = ''Increase '' @ n) \<and>
            (v > max_req r \<longrightarrow> status vd = ''High'' \<and> action vd = ''Reduce '' @ n) \<and>
            (min_req r \<le> v \<and> v \<le> max_req r \<longrightarrow>
               status vd = ''Optimal'' \<and> action vd = ''Maintain levels''))) \<and>
      recs = concat (map (\<lambda>(n, vd).
               if status vd = ''Low''
               then [''- '' @ n @ '' is low. Consider supplementing with '' @ n @ ''-rich materials.'']
               else if status vd = ''High''
               then [''- '' @ n @ '' is high. Consider mixing with lower '' @ n @ '' materials.'']
               else []) suit) \<and>
      length recs = length (filter (\<lambda>(n, vd). status vd \<noteq> ''Optimal'') suit) \<and>
      ((\<forall>(n, vd)\<in>set suit. status vd = ''Optimal'') \<longrightarrow> recs = [])) \<and>
    analyze_nutrient_suitability
      [''Nitrogen_pct'' \<mapsto> 1.0, ''Phosphorus_pct'' \<mapsto> 0.5, ''Potassium_pct'' \<mapsto> 1.8] tomatoes =
      Inr ([(''Nitrogen'', \<lparr>status = ''Low'', current = 1.0, optimal = 2.5, action = ''Increase Nitrogen''\<rparr>),
            (''Phosphorus'', \<lparr>status = ''Optimal'', current = 0.5, optimal = 0.5, action = ''Maintain levels''\<rparr>),
            (''Potassium'', \<lparr>status = ''Optimal'', current = 1.8, optimal = 1.8, action = ''Maintain levels''\<rparr>)],
           [''- Nitrogen is low. Consider supplementing with Nitrogen-rich materials.''])"
proof -
  let ?P = "\<lambda>n. predictions (n @ ''_pct'')"
  let ?mk = "\<lambda>n v. \<lparr>status = fst (classify n v (the (plant_info n))), current = v,
                     optimal = optimal_req (the (plant_info n)), action = snd (classify n v (the (plant_info n)))\<rparr>"
  let ?suit = "concat (map (\<lambda>n. case ?P n of None \<Rightarrow> [] | Some v \<Rightarrow> [(n, ?mk n v)]) nutrients)"
  let ?recs = "concat (map (\<lambda>n. case ?P n of None \<Rightarrow> []
              | Some v \<Rightarrow> recommend n (fst (classify n v (the (plant_info n))))) nutrients)"
  have dist: "distinct nutrients" by (simp add: nutrients_def)
  have run: "analyze_nutrient_suitability predictions plant_info = Inr (?suit, ?recs)"
    unfolding analyze_nutrient_suitability_def
    using analyze_loop_append[where ns=nutrients and plant_info=plant_info and sacc="[]"
        and predictions=predictions and racc="[]"] entry dist
    by fastforce
  have keys: "map fst ?suit = filter (\<lambda>n. ?P n \<noteq> None) nutrients"
    by (rule fst_entries)
  have look: "\<And>n. n \<in> set nutrients \<Longrightarrow>
      map_of ?suit n = (case ?P n of None \<Rightarrow> None | Some v \<Rightarrow> Some (?mk n v))"
    using map_of_entries[OF dist, where P="?P" and f="?mk"] by simp
  have verdicts: "\<forall>n v r. n \<in> set nutrients \<longrightarrow> ?P n = Some v \<longrightarrow> plant_info n = Some r \<longrightarrow>
         (\<exists>vd. map_of ?suit n = Some vd \<and> current vd = v \<and> optimal vd = optimal_req r \<and>
            (v < min_req r \<longrightarrow> status vd = ''Low'' \<and> action vd = ''Increase '' @ n) \<and>
            (v > max_req r \<longrightarrow> status vd = ''High'' \<and> action vd = ''Reduce '' @ n) \<and>
            (min_req r \<le> v \<and> v \<le> max_req r \<longrightarrow>
               status vd = ''Optimal'' \<and> action vd = ''Maintain levels''))"
  proof (intro allI impI)
    fix n v r
    assume n: "n \<in> set nutrients" and v: "?P n = Some v" and r: "plant_info n = Some r"
    from entry n r have le: "min_req r \<le> max_req r" by fastforce
    have "map_of ?suit n = Some (?mk n v)" using look[OF n] v by simp
    moreover have "current (?mk n v) = v" "optimal (?mk n v) = optimal_req r" using r by simp_all
    moreover have "v < min_req r \<longrightarrow> status (?mk n v) = ''Low'' \<and> action (?mk n v) = ''Increase '' @ n"
      using r by (simp add: classify_def)
    moreover have "v > max_req r \<longrightarrow> status (?mk n v) = ''High'' \<and> action (?mk n v) = ''Reduce '' @ n"
      using r le by (simp add: classify_def)
    moreover have "min_req r \<le> v \<and> v \<le> max_req r \<longrightarrow>
               status (?mk n v) = ''Optimal'' \<and> action (?mk n v) = ''Maintain levels''"
      using r by (simp add: classify_def)
    ultimately show "\<exists>vd. map_of ?suit n = Some vd \<and> current vd = v \<and> optimal vd = optimal_req r \<and>
            (v < min_req r \<longrightarrow> status vd = ''Low'' \<and> action vd = ''Increase '' @ n) \<and>
            (v > max_req r \<longrightarrow> status vd = ''High'' \<and> action vd = ''Reduce '' @ n) \<and>
            (min_req r \<le> v \<and> v \<le> max_req r \<longrightarrow>
               status vd = ''Optimal'' \<and> action vd = ''Maintain levels'')"
      by blast
  qed
  let ?rec = "\<lambda>(n, vd). if status vd = ''Low''
               then [''- '' @ n @ '' is low. Consider supplementing with '' @ n @ ''-rich materials.'']
               else if status vd = ''High''
               then [''- '' @ n @ '' is high. Consider mixing with lower '' @ n @ '' materials.'']
               else []"
  have stat: "\<And>n vd. (n, vd) \<in> set ?suit \<Longrightarrow>
      status vd = ''Low'' \<or> status vd = ''High'' \<or> status vd = ''Optimal''"
  proof -
    fix n vd
    assume "(n, vd) \<in> set ?suit"
    then obtain v where "vd = ?mk n v" by (auto split: option.splits)
    then show "status vd = ''Low'' \<or> status vd = ''High'' \<or> status vd = ''Optimal''"
      using classify_cases[of n v "the (plant_info n)"] by simp
  qed
  have recs_gen: "concat (map (\<lambda>n. case ?P n of None \<Rightarrow> []
              | Some v \<Rightarrow> recommend n (fst (classify n v (the (plant_info n))))) ns) =
       concat (map (\<lambda>(n, vd). recommend n (status vd))
         (concat (map (\<lambda>n. case ?P n of None \<Rightarrow> [] | Some v \<Rightarrow> [(n, ?mk n v)]) ns)))" for ns
    by (induction ns) (auto split: option.splits)
  have recs1: "?recs = concat (map (\<lambda>(n, vd). recommend n (status vd)) ?suit)"
    by (rule recs_gen)
  have same: "\<And>p. p \<in> set ?suit \<Longrightarrow> (\<lambda>(n, vd). recommend n (status vd)) p = ?rec p"
  proof -
    fix p assume p: "p \<in> set ?suit"
    obtain n vd where nv: "p = (n, vd)" by (cases p)
    from stat[of n vd] p nv
    have "status vd = ''Low'' \<or> status vd = ''High'' \<or> status vd = ''Optimal''" by simp
    from recommend_known[OF this, of n]
    show "(\<lambda>(n, vd). recommend n (status vd)) p = ?rec p"
      unfolding nv by simp
  qed
  have "map (\<lambda>(n, vd). recommend n (status vd)) ?suit = map ?rec ?suit"
    by (rule map_cong[OF refl]) (rule same)
  then have recs2: "?recs = concat (map ?rec ?suit)"
    unfolding recs1 by (rule arg_cong)
  have len: "length ?recs = length (filter (\<lambda>(n, vd). status vd \<noteq> ''Optimal'') ?suit)"
    unfolding recs2 by (rule rec_length) (use stat in blast)
  have none: "(\<forall>(n, vd)\<in>set ?suit. status vd = ''Optimal'') \<longrightarrow> ?recs = []"
  proof
    assume a: "\<forall>(n, vd)\<in>set ?suit. status vd = ''Optimal''"
    then have "filter (\<lambda>(n, vd). status vd \<noteq> ''Optimal'') ?suit = []"
      by (auto simp: filter_empty_conv)
    with len show "?recs = []" by simp
  qed
  have tomato: "analyze_nutrient_suitability
      [''Nitrogen_pct'' \<mapsto> 1.0, ''Phosphorus_pct'' \<mapsto> 0.5, ''Potassium_pct'' \<mapsto> 1.8] tomatoes =
      Inr ([(''Nitrogen'', \<lparr>status = ''Low'', current = 1.0, optimal = 2.5, action = ''Increase Nitrogen''\<rparr>),
            (''Phosphorus'', \<lparr>status = ''Optimal'', current = 0.5, optimal = 0.5, action = ''Maintain levels''\<rparr>),
            (''Potassium'', \<lparr>status = ''Optimal'', current = 1.8, optimal = 1.8, action = ''Maintain levels''\<rparr>)],
           [''- Nitrogen is low. Consider supplementing with Nitrogen-rich materials.''])"
    by (simp add: analyze_nutrient_suitability_def nutrients_def tomatoes_def classify_def recommend_def)
  from run keys verdicts recs2 len none
  have "\<exists>suit recs. analyze_nutrient_suitability predictions plant_info = Inr (suit, recs) \<and>
      map fst suit = filter (\<lambda>n. predictions (n @ ''_pct'') \<noteq> None) nutrients \<and>
      (\<forall>n v r. n \<in> set nutrients \<longrightarrow> predictions (n @ ''_pct'') = Some v \<longrightarrow> plant_info n = Some r \<longrightarrow>
         (\<exists>vd. map_of suit n = Some vd \<and> current vd = v \<and> optimal vd = optimal_req r \<and>
            (v < min_req r \<longrightarrow> status vd = ''Low'' \<and> action vd = ''Increase '' @ n) \<and>
            (v > max_req r \<longrightarrow> status vd = ''High'' \<and> action vd = ''Reduce '' @ n) \<and>
            (min_req r \<le> v \<and> v \<le> max_req r \<longrightarrow>
               status vd = ''Optimal'' \<and> action vd = ''Maintain levels''))) \<and>
      recs = concat (map (\<lambda>(n, vd).
               if status vd = ''Low''
               then [''- '' @ n @ '' is low. Consider supplementing with '' @ n @ ''-rich materials.'']
               else if status vd = ''High''
               then [''- '' @ n @ '' is high. Consider mixing with lower '' @ n @ '' materials.'']
               else []) suit) \<and>
      length recs = length (filter (\<lambda>(n, vd). status vd \<noteq> ''Optimal'') suit) \<and>
      ((\<forall>(n, vd)\<in>set suit. status vd = ''Optimal'') \<longrightarrow> recs = [])"
    by blast
  with tomato show ?thesis by (rule conjI[rotated])
qed

theorem suitability_classification_witness:
  "\<exists>suit recs. analyze_nutrient_suitability [''Nitrogen_pct'' \<mapsto> 4, ''Potassium_pct'' \<mapsto> 2] tomatoes
        = Inr (suit, recs) \<and>
      map fst suit = [''Nitrogen'', ''Potassium''] \<and> length recs = 1"
proof -
  have h: "\<forall>n\<in>set nutrients. \<exists>r. tomatoes n = Some r \<and> min_req r \<le> max_req r"
    by (simp add: nutrients_def tomatoes_def)
  have run: "analyze_nutrient_suitability [''Nitrogen_pct'' \<mapsto> 4, ''Potassium_pct'' \<mapsto> 2] tomatoes =
      Inr ([(''Nitrogen'', \<lparr>status = ''High'', current = 4, optimal = 2.5, action = ''Reduce Nitrogen''\<rparr>),
            (''Potassium'', \<lparr>status = ''Optimal'', current = 2, optimal = 1.8, action = ''Maintain levels''\<rparr>)],
           [''- Nitrogen is high. Consider mixing with lower Nitrogen materials.''])"
    by (simp add: analyze_nutrient_suitability_def nutrients_def tomatoes_def classify_def recommend_def)
  from suitability_classification[OF h, of "[''Nitrogen_pct'' \<mapsto> 4, ''Potassium_pct'' \<mapsto> 2]"]
  have "\<exists>suit recs. analyze_nutrient_suitability [''Nitrogen_pct'' \<mapsto> 4, ''Potassium_pct'' \<mapsto> 2] tomatoes
        = Inr (suit, recs) \<and>
      length recs = length (filter (\<lambda>(n, vd). status vd \<noteq> ''Optimal'') suit)"
    by blast
  with run show ?thesis by simp
qed

lemma recommend_mem:
  assumes "s \<in> set (recommend n st)"
  shows "s = ''- '' @ n @ '' is low. Consider supplementing with '' @ n @ ''-rich materials.'' \<or>
         s = ''- '' @ n @ '' is high. Consider mixing with lower '' @ n @ '' materials.''"
proof (cases "st = ''Optimal''")
  case True
  with assms show ?thesis unfolding recommend_def by simp
next
  case False
  show ?thesis
  proof (cases "st = ''Low''")
    case True
    with assms False show ?thesis unfolding recommend_def by simp
  next
    case nl: False
    with assms False show ?thesis unfolding recommend_def by simp
  qed
qed

lemma map_of_absent: "k \<notin> set (map fst xs) \<Longrightarrow> map_of xs k = None"
  by (simp add: map_of_eq_None_iff)

lemma concat_entries_mem:
  "s \<in> set (concat (map (\<lambda>n. case P n of None \<Rightarrow> [] | Some v \<Rightarrow> g n v) ns)) \<Longrightarrow>
   \<exists>n\<in>set ns. \<exists>v. P n = Some v \<and> s \<in> set (g n v)"
  by (induction ns) (auto split: option.splits)

text \<open>
  Claim C10.  When keys are missing from the prediction, the analyzer raises nothing: it
  returns verdicts for exactly the nutrients whose keys are present (only these need an
  entry in the plant requirements), an absent nutrient has no verdict, and every
  recommendation is the low or the high message of a present nutrient.  The full key set
  is not a precondition.
\<close>

theorem absent_nutrients_skipped:
  assumes entry: "\<forall>n\<in>set nutrients. predictions (n @ ''_pct'') \<noteq> None \<longrightarrow> plant_info n \<noteq> None"
  shows "\<exists>suit recs. analyze_nutrient_suitability predictions plant_info = Inr (suit, recs) \<and>
      map fst suit = filter (\<lambda>n. predictions (n @ ''_pct'') \<noteq> None) nutrients \<and>
      (\<forall>n. predictions (n @ ''_pct'') = None \<longrightarrow> map_of suit n = None) \<and>
      (\<forall>s\<in>set recs. \<exists>n\<in>set nutrients. predictions (n @ ''_pct'') \<noteq> None \<and>
         (s = ''- '' @ n @ '' is low. Consider supplementing with '' @ n @ ''-rich materials.'' \<or>
          s = ''- '' @ n @ '' is high. Consider mixing with lower '' @ n @ '' materials.''))"
proof -
  let ?P = "\<lambda>n. predictions (n @ ''_pct'')"
  let ?mk = "\<lambda>n v. \<lparr>status = fst (classify n v (the (plant_info n))), current = v,
                     optimal = optimal_req (the (plant_info n)), action = snd (classify n v (the (plant_info n)))\<rparr>"
  let ?g = "\<lambda>n v. recommend n (fst (classify n v (the (plant_info n))))"
  let ?suit = "concat (map (\<lambda>n. case ?P n of None \<Rightarrow> [] | Some v \<Rightarrow> [(n, ?mk n v)]) nutrients)"
  let ?recs = "concat (map (\<lambda>n. case ?P n of None \<Rightarrow> [] | Some v \<Rightarrow> ?g n v) nutrients)"
  have dist: "distinct nutrients" by (simp add: nutrients_def)
  have "set nutrients \<inter> fst ` set ([] :: (string \<times> verdict) list) = {}" by simp
  from analyze_loop_append[OF entry dist this, of "[]"]
  have run: "analyze_nutrient_suitability predictions plant_info = Inr (?suit, ?recs)"
    unfolding analyze_nutrient_suitability_def by simp
  have keys: "map fst ?suit = filter (\<lambda>n. ?P n \<noteq> None) nutrients"
    by (rule fst_entries)
  have absent: "\<forall>n. ?P n = None \<longrightarrow> map_of ?suit n = None"
  proof (intro allI impI)
    fix n assume "?P n = None"
    then have "n \<notin> set (filter (\<lambda>n. ?P n \<noteq> None) nutrients)" by simp
    then have "n \<notin> set (map fst ?suit)" by (simp only: keys not_False_eq_True)
    then show "map_of ?suit n = None" by (rule map_of_absent)
  qed
  have only: "\<forall>s\<in>set ?recs. \<exists>n\<in>set nutrients. ?P n \<noteq> None \<and>
         (s = ''- '' @ n @ '' is low. Consider supplementing with '' @ n @ ''-rich materials.'' \<or>
          s = ''- '' @ n @ '' is high. Consider mixing with lower '' @ n @ '' materials.'')"
  proof
    fix s assume "s \<in> set ?recs"
    from concat_entries_mem[where P="?P" and g="?g", OF this]
    obtain n v where n: "n \<in> set nutrients" and v: "?P n = Some v"
      and s: "s \<in> set (?g n v)"
      by blast
    from recommend_mem[OF s] n v
    show "\<exists>n\<in>set nutrients. ?P n \<noteq> None \<and>
         (s = ''- '' @ n @ '' is low. Consider supplementing with '' @ n @ ''-rich materials.'' \<or>
          s = ''- '' @ n @ '' is high. Consider mixing with lower '' @ n @ '' materials.'')"
      by blast
  qed
  from run keys absent only show ?thesis by blast
qed

theorem absent_nutrients_skipped_witness:
  "\<exists>suit recs. analyze_nutrient_suitability [''Phosphorus_pct'' \<mapsto> 1]
        [''Phosphorus'' \<mapsto> \<lparr>min_req = 0.3, max_req = 0.8, optimal_req = 0.5\<rparr>] = Inr (suit, recs) \<and>
      map fst suit = [''Phosphorus''] \<and> map_of suit ''Nitrogen'' = None"
proof -
  let ?P = "[''Phosphorus_pct'' \<mapsto> (1::real)]"
  let ?I = "[''Phosphorus'' \<mapsto> \<lparr>min_req = 0.3, max_req = 0.8, optimal_req = 0.5\<rparr>]"
  have h: "\<forall>n\<in>set nutrients. ?P (n @ ''_pct'') \<noteq> None \<longrightarrow> ?I n \<noteq> None"
    by (simp add: nutrients_def)
  have f: "filter (\<lambda>n. ?P (n @ ''_pct'') \<noteq> None) nutrients = [''Phosphorus'']"
    by (simp add: nutrients_def)
  have a: "?P (''Nitrogen'' @ ''_pct'') = None" by simp
  from absent_nutrients_skipped[OF h]
  obtain suit recs where r: "analyze_nutrient_suitability ?P ?I = Inr (suit, recs)"
    and k: "map fst suit = filter (\<lambda>n. ?P (n @ ''_pct'') \<noteq> None) nutrients"
    and ab: "\<forall>n. ?P (n @ ''_pct'') = None \<longrightarrow> map_of suit n = None"
    by blast
  from ab a have "map_of suit ''Nitrogen'' = None" by blast
  with r k f show ?thesis by (intro conjI exI) simp_all
qed

section \<open>Properties of the carbon-to-nitrogen check\<close>

lemma float_overflow_large: "float_overflow > 2 ^ 1023"
proof -
  have "(2::real) ^ 1024 = 2 * 2 ^ 1023" by simp
  moreover have "(2::real) ^ 970 < 2 ^ 1023" by (rule power_strict_increasing) simp_all
  ultimately show ?thesis unfolding float_overflow_def by linarith
qed

lemma float_overflow_gt: "float_overflow > 1000"
proof -
  have "(1000::real) < 2 ^ 10" by simp
  also have "\<dots> \<le> 2 ^ 1023" by (rule power_increasing) simp_all
  finally show ?thesis using float_overflow_large by linarith
qed

lemma c_n_exclusive: "\<not> (q_greater q 30 \<and> q_less q 15)"
  by (cases q) simp_all

lemma c_n_ratio_in_range:
  assumes "n \<noteq> 0" and "\<bar>c / n\<bar> < float_overflow"
  shows "c_n_ratio c n = Finite (c / n)"
proof -
  from assms(2) have "c / n < float_overflow" and "- float_overflow < c / n" by linarith+
  with assms(1) show ?thesis unfolding c_n_ratio_def by (simp add: not_le)
qed

lemma c_n_ratio_greater:
  assumes "n \<noteq> 0"
  shows "q_greater (c_n_ratio c n) 30 \<longleftrightarrow> c / n > 30"
  using assms float_overflow_gt by (auto simp: c_n_ratio_def)

lemma c_n_ratio_less:
  assumes "n \<noteq> 0"
  shows "q_less (c_n_ratio c n) 15 \<longleftrightarrow> c / n < 15"
  using assms float_overflow_gt by (auto simp: c_n_ratio_def)

lemma general_cases:
  assumes "predictions ''Nitrogen_pct'' = Some n"
  shows "general_recommendations c predictions =
      (if q_greater (c_n_ratio c n) 30 then Inr (CN_high (c_n_ratio c n))
       else if q_less (c_n_ratio c n) 15 then Inr (CN_low (c_n_ratio c n))
       else Inr (CN_optimal (c_n_ratio c n)))"
  using assms by (simp add: general_recommendations_def Let_def)

text \<open>
  Claim C2.  For every predicted \<open>Nitrogen_pct\<close> and every \<open>Carbon_Content\<close> the check
  reports the high message exactly when the ratio is above 30, the low message exactly
  when it is below 15 and the optimal message otherwise.  For a nonzero \<open>Nitrogen_pct\<close>
  these are the conditions \<open>Carbon_Content / Nitrogen_pct > 30\<close>,
  \<open>Carbon_Content / Nitrogen_pct < 15\<close> and \<open>15 \<le> Carbon_Content / Nitrogen_pct \<le> 30\<close>,
  and the ratio printed is \<open>Carbon_Content / Nitrogen_pct\<close> whenever this quotient lies
  inside the range of \<open>float64\<close>.  \<open>Carbon_Content = 40\<close> with \<open>Nitrogen_pct = 1.0\<close> gives
  ratio 40 and the high message, with \<open>Nitrogen_pct = 4.0\<close> ratio 10 and the low message.
\<close>

theorem c_n_ratio_verdict:
  assumes "predictions ''Nitrogen_pct'' = Some n"
  shows "(general_recommendations c predictions = Inr (CN_high (c_n_ratio c n)) \<longleftrightarrow> q_greater (c_n_ratio c n) 30) \<and>
         (general_recommendations c predictions = Inr (CN_low (c_n_ratio c n)) \<longleftrightarrow> q_less (c_n_ratio c n) 15) \<and>
         (general_recommendations c predictions = Inr (CN_optimal (c_n_ratio c n)) \<longleftrightarrow>
            \<not> q_greater (c_n_ratio c n) 30 \<and> \<not> q_less (c_n_ratio c n) 15) \<and>
         (n \<noteq> 0 \<longrightarrow>
            ((\<exists>q. general_recommendations c predictions = Inr (CN_high q)) \<longleftrightarrow> c / n > 30) \<and>
            ((\<exists>q. general_recommendations c predictions = Inr (CN_low q)) \<longleftrightarrow> c / n < 15) \<and>
            ((\<exists>q. general_recommendations c predictions = Inr (CN_optimal q)) \<longleftrightarrow>
               15 \<le> c / n \<and> c / n \<le> 30)) \<and>
         (n \<noteq> 0 \<longrightarrow> \<bar>c / n\<bar> < float_overflow \<longrightarrow>
            c_n_ratio c n = Finite (c / n) \<and>
            (general_recommendations c predictions = Inr (CN_high (Finite (c / n))) \<longleftrightarrow> c / n > 30) \<and>
            (general_recommendations c predictions = Inr (CN_low (Finite (c / n))) \<longleftrightarrow> c / n < 15) \<and>
            (general_recommendations c predictions = Inr (CN_optimal (Finite (c / n))) \<longleftrightarrow>
               15 \<le> c / n \<and> c / n \<le> 30)) \<and>
         general_recommendations 40 [''Nitrogen_pct'' \<mapsto> 1.0] = Inr (CN_high (Finite 40.0)) \<and>
         general_recommendations 40 [''Nitrogen_pct'' \<mapsto> 4.0] = Inr (CN_low (Finite 10.0))"
proof -
  let ?q = "c_n_ratio c n"
  note g = general_cases[where predictions=predictions and n=n and c=c, OF assms]
  have ex: "\<not> (q_greater ?q 30 \<and> q_less ?q 15)" by (rule c_n_exclusive)
  have p1: "general_recommendations c predictions = Inr (CN_high ?q) \<longleftrightarrow> q_greater ?q 30"
    unfolding g by simp
  have p2: "general_recommendations c predictions = Inr (CN_low ?q) \<longleftrightarrow> q_less ?q 15"
    unfolding g using ex by auto
  have p3: "general_recommendations c predictions = Inr (CN_optimal ?q) \<longleftrightarrow>
      \<not> q_greater ?q 30 \<and> \<not> q_less ?q 15"
    unfolding g by simp
  have k1: "(\<exists>q. general_recommendations c predictions = Inr (CN_high q)) \<longleftrightarrow> q_greater ?q 30"
    unfolding g by simp
  have k2: "(\<exists>q. general_recommendations c predictions = Inr (CN_low q)) \<longleftrightarrow> q_less ?q 15"
    unfolding g using ex by auto
  have k3: "(\<exists>q. general_recommendations c predictions = Inr (CN_optimal q)) \<longleftrightarrow>
      \<not> q_greater ?q 30 \<and> \<not> q_less ?q 15"
    unfolding g by simp
  have p4: "n \<noteq> 0 \<longrightarrow>
            ((\<exists>q. general_recommendations c predictions = Inr (CN_high q)) \<longleftrightarrow> c / n > 30) \<and>
            ((\<exists>q. general_recommendations c predictions = Inr (CN_low q)) \<longleftrightarrow> c / n < 15) \<and>
            ((\<exists>q. general_recommendations c predictions = Inr (CN_optimal q)) \<longleftrightarrow>
               15 \<le> c / n \<and> c / n \<le> 30)"
  proof
    assume n: "n \<noteq> 0"
    show "((\<exists>q. general_recommendations c predictions = Inr (CN_high q)) \<longleftrightarrow> c / n > 30) \<and>
            ((\<exists>q. general_recommendations c predictions = Inr (CN_low q)) \<longleftrightarrow> c / n < 15) \<and>
            ((\<exists>q. general_recommendations c predictions = Inr (CN_optimal q)) \<longleftrightarrow>
               15 \<le> c / n \<and> c / n \<le> 30)"
      unfolding k1 k2 k3 c_n_ratio_greater[OF n] c_n_ratio_less[OF n] by auto
  qed
  have p5: "n \<noteq> 0 \<longrightarrow> \<bar>c / n\<bar> < float_overflow \<longrightarrow>
            c_n_ratio c n = Finite (c / n) \<and>
            (general_recommendations c predictions = Inr (CN_high (Finite (c / n))) \<longleftrightarrow> c / n > 30) \<and>
            (general_recommendations c predictions = Inr (CN_low (Finite (c / n))) \<longleftrightarrow> c / n < 15) \<and>
            (general_recommendations c predictions = Inr (CN_optimal (Finite (c / n))) \<longleftrightarrow>
               15 \<le> c / n \<and> c / n \<le> 30)"
  proof (intro impI)
    assume n: "n \<noteq> 0" and r: "\<bar>c / n\<bar> < float_overflow"
    have q: "?q = Finite (c / n)" by (rule c_n_ratio_in_range[OF n r])
    from p1 p2 p3 show "c_n_ratio c n = Finite (c / n) \<and>
            (general_recommendations c predictions = Inr (CN_high (Finite (c / n))) \<longleftrightarrow> c / n > 30) \<and>
            (general_recommendations c predictions = Inr (CN_low (Finite (c / n))) \<longleftrightarrow> c / n < 15) \<and>
            (general_recommendations c predictions = Inr (CN_optimal (Finite (c / n))) \<longleftrightarrow>
               15 \<le> c / n \<and> c / n \<le> 30)"
      unfolding q by (auto simp: not_less)
  qed
  have e1: "general_recommendations 40 [''Nitrogen_pct'' \<mapsto> 1.0] = Inr (CN_high (Finite 40.0))"
    using float_overflow_gt by (simp add: general_recommendations_def c_n_ratio_def Let_def)
  have e2: "general_recommendations 40 [''Nitrogen_pct'' \<mapsto> 4.0] = Inr (CN_low (Finite 10.0))"
    using float_overflow_gt by (simp add: general_recommendations_def c_n_ratio_def Let_def)
  from p1 p2 p3 p4 p5 e1 e2 show ?thesis by (intro conjI)
qed

theorem c_n_ratio_verdict_witness:
  "[''Nitrogen_pct'' \<mapsto> (2::real)] ''Nitrogen_pct'' = Some 2 \<and>
   c_n_ratio 40 2 = Finite 20 \<and>
   general_recommendations 40 [''Nitrogen_pct'' \<mapsto> 2] = Inr (CN_optimal (Finite 20))"
proof -
  have h: "[''Nitrogen_pct'' \<mapsto> (2::real)] ''Nitrogen_pct'' = Some 2" by simp
  have n: "(2::real) \<noteq> 0" by simp
  have r: "\<bar>(40::real) / 2\<bar> < float_overflow" using float_overflow_gt by simp
  from c_n_ratio_verdict[where predictions="[''Nitrogen_pct'' \<mapsto> (2::real)]" and n=2 and c=40, OF h] n r
  have "c_n_ratio 40 2 = Finite (40 / 2)"
    and "general_recommendations 40 [''Nitrogen_pct'' \<mapsto> 2] = Inr (CN_optimal (Finite (40 / 2))) \<longleftrightarrow>
         (15::real) \<le> 40 / 2 \<and> (40::real) / 2 \<le> 30"
    by blast+
  with h show ?thesis by simp
qed

text \<open>
  Claim C3 says that the division is guarded against a zero or near-zero
  \<open>Nitrogen_pct\<close>.  The code has no guard: with \<open>Nitrogen_pct = 0\<close> the division is
  performed on the zero divisor and its infinite result is what the verdict is taken from.
\<close>

theorem zero_nitrogen_division_counterexample:
  "general_recommendations 40 [''Nitrogen_pct'' \<mapsto> 0] = Inr (CN_high PosInf)"
  by (simp add: general_recommendations_def c_n_ratio_def Let_def)

lemma tiny_nitrogen: "(40::real) / (1 / 10 ^ 320) \<ge> float_overflow"
  unfolding float_overflow_def by simp

text \<open>
  Claim C3, amended.  There is no guard: the division is performed for every predicted
  \<open>Nitrogen_pct\<close> and the verdict is always one of the three messages, taken from the
  result of the division.  No exception is raised by it: a zero \<open>Nitrogen_pct\<close> gives an
  infinity or not-a-number, and with a positive \<open>Carbon_Content\<close> the high message with
  an infinite ratio; a nonzero \<open>Nitrogen_pct\<close> so near zero that the quotient leaves the
  range of \<open>float64\<close> gives an infinity as well, with the high message for a quotient
  beyond the range above and the low message below, as for \<open>Carbon_Content = 40\<close> and
  \<open>Nitrogen_pct = 1e-320\<close>.
\<close>

theorem c_n_ratio_unguarded:
  assumes "predictions ''Nitrogen_pct'' = Some n"
  shows "(general_recommendations c predictions = Inr (CN_high (c_n_ratio c n)) \<or>
          general_recommendations c predictions = Inr (CN_low (c_n_ratio c n)) \<or>
          general_recommendations c predictions = Inr (CN_optimal (c_n_ratio c n))) \<and>
         (n = 0 \<longrightarrow> c_n_ratio c n = PosInf \<or> c_n_ratio c n = NegInf \<or> c_n_ratio c n = NotANumber) \<and>
         (n = 0 \<longrightarrow> c > 0 \<longrightarrow> general_recommendations c predictions = Inr (CN_high PosInf)) \<and>
         (n \<noteq> 0 \<longrightarrow> c / n \<ge> float_overflow \<longrightarrow>
            general_recommendations c predictions = Inr (CN_high PosInf)) \<and>
         (n \<noteq> 0 \<longrightarrow> c / n \<le> - float_overflow \<longrightarrow>
            general_recommendations c predictions = Inr (CN_low NegInf)) \<and>
         general_recommendations 40 [''Nitrogen_pct'' \<mapsto> 1 / 10 ^ 320] = Inr (CN_high PosInf)"
proof -
  note g = general_cases[where predictions=predictions and n=n and c=c, OF assms]
  have a: "general_recommendations c predictions = Inr (CN_high (c_n_ratio c n)) \<or>
          general_recommendations c predictions = Inr (CN_low (c_n_ratio c n)) \<or>
          general_recommendations c predictions = Inr (CN_optimal (c_n_ratio c n))"
    unfolding g by simp
  have b: "n = 0 \<longrightarrow> c_n_ratio c n = PosInf \<or> c_n_ratio c n = NegInf \<or> c_n_ratio c n = NotANumber"
    by (simp add: c_n_ratio_def)
  have c0: "n = 0 \<longrightarrow> c > 0 \<longrightarrow> general_recommendations c predictions = Inr (CN_high PosInf)"
    unfolding g by (simp add: c_n_ratio_def)
  have d: "n \<noteq> 0 \<longrightarrow> c / n \<ge> float_overflow \<longrightarrow>
            general_recommendations c predictions = Inr (CN_high PosInf)"
    unfolding g by (simp add: c_n_ratio_def)
  have e: "n \<noteq> 0 \<longrightarrow> c / n \<le> - float_overflow \<longrightarrow>
            general_recommendations c predictions = Inr (CN_low NegInf)"
    unfolding g using float_overflow_gt by (simp add: c_n_ratio_def)
  have f: "general_recommendations 40 [''Nitrogen_pct'' \<mapsto> 1 / 10 ^ 320] = Inr (CN_high PosInf)"
    using tiny_nitrogen by (simp add: general_recommendations_def c_n_ratio_def Let_def)
  from a b c0 d e f show ?thesis by (intro conjI)
qed

theorem c_n_ratio_unguarded_witness:
  "[''Nitrogen_pct'' \<mapsto> (0::real)] ''Nitrogen_pct'' = Some 0 \<and> (0::real) = 0 \<and> (25::real) > 0 \<and>
   general_recommendations 25 [''Nitrogen_pct'' \<mapsto> 0] = Inr (CN_high PosInf)"
proof -
  have h: "[''Nitrogen_pct'' \<mapsto> (0::real)] ''Nitrogen_pct'' = Some 0" by simp
  from c_n_ratio_unguarded[where predictions="[''Nitrogen_pct'' \<mapsto> (0::real)]" and n=0 and c=25, OF h] h show ?thesis by simp
qed


section \<open>Properties of the tables\<close>

lemma col_set_col: "col (set_col data c' cs') c = (if c = c' then Some cs' else col data c)"
  by (simp add: col_def set_col_def update_conv')

lemma nrows_set_col: "nrows (set_col data c cs) = nrows data"
  by (simp add: set_col_def)

lemma set_col_same: "col data c = Some cs \<Longrightarrow> set_col data c cs = data"
  by (simp add: col_def set_col_def update_triv)

lemma all_num_facts:
  assumes "list_all is_num cs"
  shows "map (coerce parse) cs = cs" and "\<not> list_ex isna cs" and "\<not> dtype_object cs"
    and "\<not> list_ex (isin mapping) cs"
proof -
  have c: "\<And>x. is_num x \<Longrightarrow> coerce parse x = x \<and> \<not> isna x \<and> \<not> is_str x \<and> \<not> isin mapping x"
  proof -
    fix x show "is_num x \<Longrightarrow> coerce parse x = x \<and> \<not> isna x \<and> \<not> is_str x \<and> \<not> isin mapping x"
      by (cases x) simp_all
  qed
  from assms c show "map (coerce parse) cs = cs" by (induction cs) simp_all
  from assms c show "\<not> list_ex isna cs" by (induction cs) simp_all
  from assms c show "\<not> dtype_object cs" unfolding dtype_object_def by (induction cs) simp_all
  from assms c show "\<not> list_ex (isin mapping) cs" by (induction cs) simp_all
qed

subsection \<open>The conversion loop\<close>

lemma convert_loop_nrows: "nrows (convert_loop ms data) = nrows data"
  by (induction ms data rule: convert_loop.induct) (auto simp: nrows_set_col split: option.splits)

lemma convert_loop_col:
  assumes "distinct (map fst ms)"
  shows "col (convert_loop ms data) c =
     (case map_of ms c of
        None \<Rightarrow> col data c
      | Some mapping \<Rightarrow>
          (case col data c of
             None \<Rightarrow> None
           | Some cs \<Rightarrow> Some (if dtype_object cs \<and> list_ex (isin mapping) cs
                              then map (map_cell mapping) cs else cs)))"
  using assms
proof (induction ms arbitrary: data)
  case Nil
  then show ?case by simp
next
  case (Cons p ms)
  obtain c' mapping' where p: "p = (c', mapping')" by (cases p)
  from Cons.prems p have d: "distinct (map fst ms)" and nin: "c' \<notin> fst ` set ms" by auto
  let ?data' = "case col data c' of None \<Rightarrow> data
        | Some cs \<Rightarrow> if dtype_object cs \<and> list_ex (isin mapping') cs
            then set_col data c' (map (map_cell mapping') cs) else data"
  have step: "convert_loop (p # ms) data = convert_loop ms ?data'" unfolding p by simp
  have other: "c \<noteq> c' \<Longrightarrow> col ?data' c = col data c"
    by (simp add: col_set_col split: option.splits)
  have own: "col ?data' c' = (case col data c' of None \<Rightarrow> None
       | Some cs \<Rightarrow> Some (if dtype_object cs \<and> list_ex (isin mapping') cs
                              then map (map_cell mapping') cs else cs))"
    by (simp add: col_set_col split: option.splits)
  show ?case
  proof (cases "c = c'")
    case True
    from nin have "map_of ms c' = None" by (simp add: map_of_eq_None_iff)
    with Cons.IH[OF d, of ?data' ] own True show ?thesis unfolding step p by simp
  next
    case False
    with Cons.IH[OF d, of ?data', unfolded other[OF False]] show ?thesis unfolding step p by simp
  qed
qed

lemma distinct_mappings: "distinct (map fst CATEGORICAL_MAPPINGS)"
  by (simp add: CATEGORICAL_MAPPINGS_def)

lemma convert_col:
  "col (convert_categorical_to_numeric data) c =
     (case map_of CATEGORICAL_MAPPINGS c of
        None \<Rightarrow> col data c
      | Some mapping \<Rightarrow>
          (case col data c of
             None \<Rightarrow> None
           | Some cs \<Rightarrow> Some (if dtype_object cs \<and> list_ex (isin mapping) cs
                              then map (map_cell mapping) cs else cs)))"
  unfolding convert_categorical_to_numeric_def by (rule convert_loop_col[OF distinct_mappings])

lemma convert_nrows: "nrows (convert_categorical_to_numeric data) = nrows data"
  unfolding convert_categorical_to_numeric_def by (rule convert_loop_nrows)

lemma isin_is_str: "list_ex (isin mapping) cs \<Longrightarrow> dtype_object cs"
  unfolding dtype_object_def
proof (induction cs)
  case Nil then show ?case by simp
next
  case (Cons a cs)
  then show ?case by (cases a) auto
qed

lemma isin_nth: "i < length cs \<Longrightarrow> cs ! i = Str s \<Longrightarrow> map_of mapping s = Some x \<Longrightarrow> list_ex (isin mapping) cs"
  by (auto simp: list_ex_iff in_set_conv_nth intro!: bexI[where x="Str s"])

text \<open>
  Claim C4 says that every value outside the mapping is passed through unchanged.  That
  fails in a column that holds a label of the mapping: \<open>Series.map\<close> turns every other
  value of that column, a numeric entry or an unknown label, into the missing value.
\<close>

theorem categorical_passthrough_counterexample:
  "col (convert_categorical_to_numeric
          \<lparr>nrows = 3, columns = [(''pH_Level'', [Str ''High'', Str ''7.0'', Str ''Acidic''])]\<rparr>)
       ''pH_Level'' = Some [Num 8.5, NaN, NaN]"
  by (subst convert_col) (simp add: CATEGORICAL_MAPPINGS_def col_def dtype_object_def)

text \<open>
  Claim C4, amended.  For every table and every column of the mapping table that is in
  the table, the conversion replaces each value that is a label of the column's mapping
  by its number (\<open>pH_Level = "High"\<close> becomes 8.5) and keeps the length of the column;
  a column in which no value is a label of the mapping is left unchanged, and so is every
  column that is not in the mapping table.  The number of rows is unchanged.
\<close>

theorem categorical_conversion:
  assumes "(c, mapping) \<in> set CATEGORICAL_MAPPINGS" and "col data c = Some cs"
  shows "(\<exists>cs'. col (convert_categorical_to_numeric data) c = Some cs' \<and>
            length cs' = length cs \<and>
            (\<forall>i s x. i < length cs \<longrightarrow> cs ! i = Str s \<longrightarrow> map_of mapping s = Some x \<longrightarrow>
                cs' ! i = Num x) \<and>
            (\<not> list_ex (isin mapping) cs \<longrightarrow> cs' = cs)) \<and>
         (\<forall>c'. c' \<notin> fst ` set CATEGORICAL_MAPPINGS \<longrightarrow>
            col (convert_categorical_to_numeric data) c' = col data c') \<and>
         nrows (convert_categorical_to_numeric data) = nrows data \<and>
         col (convert_categorical_to_numeric \<lparr>nrows = 1, columns = [(''pH_Level'', [Str ''High''])]\<rparr>)
           ''pH_Level'' = Some [Num 8.5]"
proof -
  let ?cs' = "if dtype_object cs \<and> list_ex (isin mapping) cs then map (map_cell mapping) cs else cs"
  from assms(1) have m: "map_of CATEGORICAL_MAPPINGS c = Some mapping"
    using distinct_mappings by (rule_tac map_of_is_SomeI)
  have res: "col (convert_categorical_to_numeric data) c = Some ?cs'"
    by (simp add: convert_col m assms(2))
  have len: "length ?cs' = length cs" by simp
  have repl: "\<forall>i s x. i < length cs \<longrightarrow> cs ! i = Str s \<longrightarrow> map_of mapping s = Some x \<longrightarrow>
                ?cs' ! i = Num x"
  proof (intro allI impI)
    fix i s x
    assume i: "i < length cs" and s: "cs ! i = Str s" and x: "map_of mapping s = Some x"
    from isin_nth[OF i s x] have ex: "list_ex (isin mapping) cs" .
    with isin_is_str have "dtype_object cs" by blast
    with ex have "?cs' = map (map_cell mapping) cs" by simp
    with i s x show "?cs' ! i = Num x" by simp
  qed
  have keep: "\<not> list_ex (isin mapping) cs \<longrightarrow> ?cs' = cs" by simp
  have others: "\<forall>c'. c' \<notin> fst ` set CATEGORICAL_MAPPINGS \<longrightarrow>
            col (convert_categorical_to_numeric data) c' = col data c'"
  proof (intro allI impI)
    fix c' assume "c' \<notin> fst ` set CATEGORICAL_MAPPINGS"
    then have "map_of CATEGORICAL_MAPPINGS c' = None" by (simp add: map_of_eq_None_iff)
    then show "col (convert_categorical_to_numeric data) c' = col data c'"
      by (simp add: convert_col)
  qed
  have ex: "col (convert_categorical_to_numeric \<lparr>nrows = 1, columns = [(''pH_Level'', [Str ''High''])]\<rparr>)
           ''pH_Level'' = Some [Num 8.5]"
    by (subst convert_col) (simp add: CATEGORICAL_MAPPINGS_def col_def dtype_object_def)
  from res len repl keep have first: "\<exists>cs'. col (convert_categorical_to_numeric data) c = Some cs' \<and>
            length cs' = length cs \<and>
            (\<forall>i s x. i < length cs \<longrightarrow> cs ! i = Str s \<longrightarrow> map_of mapping s = Some x \<longrightarrow>
                cs' ! i = Num x) \<and>
            (\<not> list_ex (isin mapping) cs \<longrightarrow> cs' = cs)"
    by blast
  from first others convert_nrows ex show ?thesis by (intro conjI)
qed

theorem categorical_conversion_witness:
  "col (convert_categorical_to_numeric
          \<lparr>nrows = 2, columns = [(''Waste_Type'', [Str ''Food'', Str ''Paper'']),
                                 (''Age_Days'', [Str ''12'', Str ''40''])]\<rparr>) ''Age_Days''
     = Some [Str ''12'', Str ''40'']"
proof -
  let ?t = "\<lparr>nrows = 2, columns = [(''Waste_Type'', [Str ''Food'', Str ''Paper'']),
                                 (''Age_Days'', [Str ''12'', Str ''40''])]\<rparr>"
  let ?m = "[(''Young'', 15), (''Medium'', 30), (''Old'', 60)] :: (string \<times> real) list"
  have h1: "(''Age_Days'', ?m) \<in> set CATEGORICAL_MAPPINGS" by (simp add: CATEGORICAL_MAPPINGS_def)
  have h2: "col ?t ''Age_Days'' = Some [Str ''12'', Str ''40'']" by (simp add: col_def)
  have h3: "\<not> list_ex (isin ?m) [Str ''12'', Str ''40'']" by simp
  from categorical_conversion[OF h1 h2] h3 show ?thesis by blast
qed

subsection \<open>Missing-data handling\<close>

lemma fill_columns_nrows: "nrows (fill_columns ds data) = nrows data"
  by (induction ds data rule: fill_columns.induct) (simp_all add: nrows_set_col)

lemma fill_columns_col:
  "col (fill_columns ds data) c =
     (case col data c of
        Some cs \<Rightarrow> Some cs
      | None \<Rightarrow> (case map_of ds c of None \<Rightarrow> None
                 | Some d \<Rightarrow> Some (replicate (nrows data) d)))"
proof (induction ds arbitrary: data)
  case Nil
  then show ?case by (simp split: option.splits)
next
  case (Cons p ds)
  obtain c' d' where p: "p = (c', d')" by (cases p)
  let ?data' = "if col data c' = None then set_col data c' (replicate (nrows data) d') else data"
  have step: "fill_columns (p # ds) data = fill_columns ds ?data'" unfolding p by simp
  have n: "nrows ?data' = nrows data" by (simp add: nrows_set_col)
  have c1: "col ?data' c = (if c = c' \<and> col data c' = None then Some (replicate (nrows data) d') else col data c)"
    by (simp add: col_set_col)
  have "col (fill_columns (p # ds) data) c = col (fill_columns ds ?data') c"
    by (simp only: step)
  also have "\<dots> = (case col ?data' c of
        Some cs \<Rightarrow> Some cs
      | None \<Rightarrow> (case map_of ds c of None \<Rightarrow> None
                 | Some d \<Rightarrow> Some (replicate (nrows ?data') d)))"
    by (rule Cons.IH)
  also have "\<dots> = (case col data c of
        Some cs \<Rightarrow> Some cs
      | None \<Rightarrow> (case map_of (p # ds) c of None \<Rightarrow> None
                 | Some d \<Rightarrow> Some (replicate (nrows data) d)))"
    unfolding n c1 p by (auto split: option.splits)
  finally show ?case .
qed

lemma fill_columns_id:
  "\<forall>c\<in>fst ` set ds. col data c \<noteq> None \<Longrightarrow> fill_columns ds data = data"
  by (induction ds data rule: fill_columns.induct) auto

lemma convert_loop_id:
  "\<forall>c\<in>fst ` set ms. \<forall>cs. col data c = Some cs \<longrightarrow> list_all is_num cs \<Longrightarrow> convert_loop ms data = data"
proof (induction ms data rule: convert_loop.induct)
  case (1 data)
  then show ?case by simp
next
  case (2 c mapping rest data)
  have same: "(case col data c of None \<Rightarrow> data
        | Some cs \<Rightarrow> if dtype_object cs \<and> list_ex (isin mapping) cs
            then set_col data c (map (map_cell mapping) cs) else data) = data"
  proof (cases "col data c")
    case None then show ?thesis by simp
  next
    case (Some cs)
    with "2.prems" have "list_all is_num cs" by simp
    from all_num_facts(3)[OF this] Some show ?thesis by simp
  qed
  from "2.IH" "2.prems" show ?case unfolding convert_loop.simps same by simp
qed

lemma numeric_loop_nrows: "nrows (numeric_loop parse cols data) = nrows data"
  by (induction cols arbitrary: data) (auto simp: nrows_set_col Let_def split: option.splits)

lemma numeric_step_col:
  "col (case col data c' of None \<Rightarrow> data
        | Some cs \<Rightarrow>
            (let data1 = set_col data c' (map (coerce parse) cs) in
             if list_ex isna (map (coerce parse) cs)
             then set_col data1 c' (fillna (map (coerce parse) cs) (series_mean (map (coerce parse) cs)))
             else data1)) c =
   (if c = c' then
      (case col data c of None \<Rightarrow> None
       | Some cs \<Rightarrow> Some (if list_ex isna (map (coerce parse) cs)
                          then fillna (map (coerce parse) cs) (series_mean (map (coerce parse) cs))
                          else map (coerce parse) cs))
    else col data c)"
  by (simp add: col_set_col Let_def split: option.splits)

lemma numeric_loop_col:
  assumes "distinct cols"
  shows "col (numeric_loop parse cols data) c =
     (if c \<in> set cols then
        (case col data c of None \<Rightarrow> None
         | Some cs \<Rightarrow> Some (if list_ex isna (map (coerce parse) cs)
                            then fillna (map (coerce parse) cs) (series_mean (map (coerce parse) cs))
                            else map (coerce parse) cs))
      else col data c)"
  using assms
proof (induction cols arbitrary: data)
  case Nil
  then show ?case by simp
next
  case (Cons c' cols)
  let ?data' = "case col data c' of None \<Rightarrow> data
        | Some cs \<Rightarrow>
            (let data1 = set_col data c' (map (coerce parse) cs) in
             if list_ex isna (map (coerce parse) cs)
             then set_col data1 c' (fillna (map (coerce parse) cs) (series_mean (map (coerce parse) cs)))
             else data1)"
  from Cons.prems have d: "distinct cols" and nin: "c' \<notin> set cols" by auto
  have step: "numeric_loop parse (c' # cols) data = numeric_loop parse cols ?data'" by simp
  note st = numeric_step_col[of data c' parse c]
  show ?case
  proof (cases "c = c'")
    case True
    with nin have "c \<notin> set cols" by simp
    with Cons.IH[OF d, of ?data'] have "col (numeric_loop parse cols ?data') c = col ?data' c" by simp
    with st True show ?thesis unfolding step by simp
  next
    case False
    with st have e: "col ?data' c = col data c" by simp
    from Cons.IH[OF d, of ?data', unfolded e] False show ?thesis unfolding step by simp
  qed
qed

lemma numeric_loop_id:
  "\<forall>c\<in>set cols. \<forall>cs. col data c = Some cs \<longrightarrow> list_all is_num cs \<Longrightarrow>
   numeric_loop parse cols data = data"
proof (induction cols arbitrary: data)
  case Nil
  then show ?case by simp
next
  case (Cons c cols)
  have same: "(case col data c of None \<Rightarrow> data
        | Some cs \<Rightarrow>
            (let data1 = set_col data c (map (coerce parse) cs) in
             if list_ex isna (map (coerce parse) cs)
             then set_col data1 c (fillna (map (coerce parse) cs) (series_mean (map (coerce parse) cs)))
             else data1)) = data"
  proof (cases "col data c")
    case None then show ?thesis by simp
  next
    case (Some cs)
    with Cons.prems have a: "list_all is_num cs" by simp
    from all_num_facts(1)[OF a] all_num_facts(2)[OF a] Some show ?thesis
      by (simp add: Let_def set_col_same)
  qed
  from Cons.IH[of data] Cons.prems show ?case unfolding numeric_loop.simps same by simp
qed

lemma distinct_numeric_columns: "distinct numeric_columns"
  by (simp add: numeric_columns_def)

lemma distinct_defaults: "distinct (map fst DEFAULT_VALUES)"
  by (simp add: DEFAULT_VALUES_def)

lemma mapping_keys: "fst ` set CATEGORICAL_MAPPINGS = set numeric_columns"
  by (simp add: CATEGORICAL_MAPPINGS_def numeric_columns_def)

lemma numeric_defaults:
  "(c, d) \<in> set DEFAULT_VALUES \<Longrightarrow> c \<in> set numeric_columns \<Longrightarrow> is_num d"
  by (auto simp: DEFAULT_VALUES_def numeric_columns_def)

lemma handle_col:
  "col (handle_missing_data parse data) c =
     (if c \<in> set numeric_columns then
        (case col (fill_columns DEFAULT_VALUES data) c of None \<Rightarrow> None
         | Some cs \<Rightarrow> Some (if list_ex isna (map (coerce parse) cs)
                            then fillna (map (coerce parse) cs) (series_mean (map (coerce parse) cs))
                            else map (coerce parse) cs))
      else col (fill_columns DEFAULT_VALUES data) c)"
  unfolding handle_missing_data_def by (rule numeric_loop_col[OF distinct_numeric_columns])

lemma handle_nrows: "nrows (handle_missing_data parse data) = nrows data"
  by (simp add: handle_missing_data_def numeric_loop_nrows fill_columns_nrows)

lemma fillna_if: "(if list_ex isna xs then fillna xs m else xs) = fillna xs m"
proof -
  have "\<not> list_ex isna xs \<Longrightarrow> fillna xs m = xs"
    unfolding fillna_def by (induction xs) simp_all
  then show ?thesis by simp
qed

lemma fillna_nth: "i < length xs \<Longrightarrow> fillna xs m ! i = (if isna (xs ! i) then m else xs ! i)"
  by (simp add: fillna_def)

lemma coerce_map_cell: "coerce parse (map_cell mapping c) = map_cell mapping c"
  by (cases c) (simp_all split: option.splits)

lemma coerce_mapped: "map (coerce parse) (map (map_cell mapping) cs) = map (map_cell mapping) cs"
  by (simp add: coerce_map_cell)

lemma mapping_numeric:
  assumes "(c, mapping) \<in> set CATEGORICAL_MAPPINGS"
  shows "c \<in> set numeric_columns" and "map_of CATEGORICAL_MAPPINGS c = Some mapping"
proof -
  from assms have "c \<in> fst ` set CATEGORICAL_MAPPINGS" by force
  then show "c \<in> set numeric_columns" unfolding mapping_keys .
  from assms show "map_of CATEGORICAL_MAPPINGS c = Some mapping"
    using distinct_mappings by (rule_tac map_of_is_SomeI)
qed

lemma not_numeric_no_mapping:
  assumes "c \<notin> set numeric_columns"
  shows "map_of CATEGORICAL_MAPPINGS c = None"
proof -
  from assms have "c \<notin> fst ` set CATEGORICAL_MAPPINGS" unfolding mapping_keys .
  then show ?thesis by (simp add: map_of_eq_None_iff)
qed

lemma normalize_other_col:
  assumes "c \<notin> set numeric_columns" and "col data c = Some cs"
  shows "col (normalize parse data) c = Some cs"
proof -
  have a: "col (convert_categorical_to_numeric data) c = Some cs"
    unfolding convert_col not_numeric_no_mapping[OF assms(1)] using assms(2) by simp
  have b: "col (fill_columns DEFAULT_VALUES (convert_categorical_to_numeric data)) c = Some cs"
    unfolding fill_columns_col a by simp
  show ?thesis unfolding normalize_def handle_col b using assms(1) by simp
qed

lemma normalize_numeric_col:
  assumes "(c, mapping) \<in> set CATEGORICAL_MAPPINGS" and "col data c = Some cs"
  shows "col (normalize parse data) c =
     Some (if list_ex (isin mapping) cs
           then fillna (map (map_cell mapping) cs) (series_mean (map (map_cell mapping) cs))
           else fillna (map (coerce parse) cs) (series_mean (map (coerce parse) cs)))"
proof -
  note n = mapping_numeric[OF assms(1)]
  let ?x = "if dtype_object cs \<and> list_ex (isin mapping) cs then map (map_cell mapping) cs else cs"
  have a: "col (convert_categorical_to_numeric data) c = Some ?x"
    unfolding convert_col n(2) using assms(2) by simp
  have b: "col (fill_columns DEFAULT_VALUES (convert_categorical_to_numeric data)) c = Some ?x"
    unfolding fill_columns_col a by simp
  have r: "col (normalize parse data) c =
      Some (fillna (map (coerce parse) ?x) (series_mean (map (coerce parse) ?x)))"
    unfolding normalize_def handle_col b fillna_if using n(1) by simp
  show ?thesis
  proof (cases "list_ex (isin mapping) cs")
    case True
    with isin_is_str[OF True] have "?x = map (map_cell mapping) cs" by simp
    with r True show ?thesis by (simp only: coerce_mapped if_True)
  next
    case False
    then have "?x = cs" by simp
    with r False show ?thesis by (simp only: if_False)
  qed
qed

lemma isin_cases: "isin mapping c \<longleftrightarrow> (\<exists>s x. c = Str s \<and> map_of mapping s = Some x)"
  by (cases c) auto

lemma map_cell_na: "\<not> isin mapping c \<Longrightarrow> map_cell mapping c = NaN"
  by (cases c) (auto split: option.splits)

text \<open>
  Claim C7 says that the columns already present are left unchanged.  That fails for a
  present numeric column with a missing value: the value is replaced by the column mean.
\<close>

theorem imputation_changes_present_column_counterexample:
  "col (normalize (\<lambda>s. None) \<lparr>nrows = 2, columns = [(''pH_Level'', [Num 6, NaN])]\<rparr>) ''pH_Level''
     = Some [Num 6, Num 6]"
proof -
  let ?t = "\<lparr>nrows = 2, columns = [(''pH_Level'', [Num 6, NaN])]\<rparr>"
  have c: "col (convert_categorical_to_numeric ?t) ''pH_Level'' = Some [Num 6, NaN]"
    by (subst convert_col) (simp add: CATEGORICAL_MAPPINGS_def col_def dtype_object_def)
  have f: "col (fill_columns DEFAULT_VALUES (convert_categorical_to_numeric ?t)) ''pH_Level''
             = Some [Num 6, NaN]"
    by (subst fill_columns_col) (simp add: c)
  have n: "''pH_Level'' \<in> set numeric_columns" by (simp add: numeric_columns_def)
  show ?thesis unfolding normalize_def
    by (subst handle_col) (simp add: n f fillna_def series_mean_def)
qed

text \<open>
  Claim C7, amended.  Each of the seven expected columns that is absent is inserted with
  its default in every row (\<open>Moisture_Content\<close> with 50.0), by \<open>handle_missing_data\<close>
  and by the whole normalization.  The normalization leaves a present column outside the
  six numeric columns unchanged.  A present numeric column keeps its length.  If none of
  its values is a label of the column's mapping, then every entry that is a number is
  left unchanged, every string that reads as a number becomes that number, and every
  entry that is missing or unreadable becomes the mean of the column's numbers (the
  missing value when there is none), so that a column of numbers only is unchanged.  If
  one of its values is a label of the mapping, then every label becomes its number and
  every other entry, a number included, becomes the mean of these numbers.
\<close>

theorem missing_column_defaults:
  assumes "(c, d) \<in> set DEFAULT_VALUES" and "col data c = None"
  shows "col (handle_missing_data parse data) c = Some (replicate (nrows data) d) \<and>
         col (normalize parse data) c = Some (replicate (nrows data) d) \<and>
         (col data ''Moisture_Content'' = None \<longrightarrow>
            col (normalize parse data) ''Moisture_Content'' = Some (replicate (nrows data) (Num 50.0))) \<and>
         (\<forall>c' cs. c' \<notin> set numeric_columns \<longrightarrow> col data c' = Some cs \<longrightarrow>
            col (normalize parse data) c' = Some cs) \<and>
         (\<forall>c' mapping cs. (c', mapping) \<in> set CATEGORICAL_MAPPINGS \<longrightarrow> col data c' = Some cs \<longrightarrow>
            (\<exists>cs'. col (normalize parse data) c' = Some cs' \<and> length cs' = length cs \<and>
               (\<not> list_ex (isin mapping) cs \<longrightarrow>
                  (\<forall>i<length cs.
                     (is_num (cs ! i) \<longrightarrow> cs' ! i = cs ! i) \<and>
                     (\<forall>s x. cs ! i = Str s \<longrightarrow> parse s = Some x \<longrightarrow> cs' ! i = Num x) \<and>
                     (coerce parse (cs ! i) = NaN \<longrightarrow>
                        cs' ! i = series_mean (map (coerce parse) cs))) \<and>
                  (list_all is_num cs \<longrightarrow> cs' = cs)) \<and>
               (list_ex (isin mapping) cs \<longrightarrow>
                  (\<forall>i<length cs.
                     (\<forall>s x. cs ! i = Str s \<longrightarrow> map_of mapping s = Some x \<longrightarrow> cs' ! i = Num x) \<and>
                     (\<not> isin mapping (cs ! i) \<longrightarrow>
                        cs' ! i = series_mean (map (map_cell mapping) cs))))))"
proof -
  have ins: "col (handle_missing_data parse t) k = Some (replicate (nrows t) e)"
    if kd: "(k, e) \<in> set DEFAULT_VALUES" and none: "col t k = None" for t k e
  proof -
    from kd have m: "map_of DEFAULT_VALUES k = Some e"
      using distinct_defaults by (rule_tac map_of_is_SomeI)
    have f: "col (fill_columns DEFAULT_VALUES t) k = Some (replicate (nrows t) e)"
      by (subst fill_columns_col) (simp add: none m)
    show ?thesis
    proof (cases "k \<in> set numeric_columns")
      case False
      then show ?thesis by (subst handle_col) (simp add: f)
    next
      case True
      from numeric_defaults[OF kd True] obtain x where x: "e = Num x" by (cases e) simp_all
      have "\<not> list_ex isna (replicate (nrows t) (Num x))" by (simp add: list_ex_iff)
      with True f x show ?thesis by (subst handle_col) simp
    qed
  qed
  have conv_none: "col (convert_categorical_to_numeric data) k = None" if "col data k = None" for k
    by (subst convert_col) (simp add: that split: option.splits)
  have insn: "col (normalize parse data) k = Some (replicate (nrows data) e)"
    if kd: "(k, e) \<in> set DEFAULT_VALUES" and none: "col data k = None" for k e
    unfolding normalize_def using ins[OF kd conv_none[OF none]] by (simp add: convert_nrows)
  have p1: "col (handle_missing_data parse data) c = Some (replicate (nrows data) d)"
    by (rule ins[OF assms])
  have p2: "col (normalize parse data) c = Some (replicate (nrows data) d)"
    by (rule insn[OF assms])
  have mc: "(''Moisture_Content'', Num 50.0) \<in> set DEFAULT_VALUES" by (simp add: DEFAULT_VALUES_def)
  have p3: "col data ''Moisture_Content'' = None \<longrightarrow>
            col (normalize parse data) ''Moisture_Content'' = Some (replicate (nrows data) (Num 50.0))"
    using insn[OF mc] by blast
  have p4: "\<forall>c' cs. c' \<notin> set numeric_columns \<longrightarrow> col data c' = Some cs \<longrightarrow>
            col (normalize parse data) c' = Some cs"
    using normalize_other_col by blast
  have p5: "\<forall>c' mapping cs. (c', mapping) \<in> set CATEGORICAL_MAPPINGS \<longrightarrow> col data c' = Some cs \<longrightarrow>
            (\<exists>cs'. col (normalize parse data) c' = Some cs' \<and> length cs' = length cs \<and>
               (\<not> list_ex (isin mapping) cs \<longrightarrow>
                  (\<forall>i<length cs.
                     (is_num (cs ! i) \<longrightarrow> cs' ! i = cs ! i) \<and>
                     (\<forall>s x. cs ! i = Str s \<longrightarrow> parse s = Some x \<longrightarrow> cs' ! i = Num x) \<and>
                     (coerce parse (cs ! i) = NaN \<longrightarrow>
                        cs' ! i = series_mean (map (coerce parse) cs))) \<and>
                  (list_all is_num cs \<longrightarrow> cs' = cs)) \<and>
               (list_ex (isin mapping) cs \<longrightarrow>
                  (\<forall>i<length cs.
                     (\<forall>s x. cs ! i = Str s \<longrightarrow> map_of mapping s = Some x \<longrightarrow> cs' ! i = Num x) \<and>
                     (\<not> isin mapping (cs ! i) \<longrightarrow>
                        cs' ! i = series_mean (map (map_cell mapping) cs)))))"
  proof (intro allI impI)
    fix c' mapping cs
    assume a: "(c', mapping) \<in> set CATEGORICAL_MAPPINGS" and b: "col data c' = Some cs"
    let ?co = "map (coerce parse) cs"
    let ?ma = "map (map_cell mapping) cs"
    let ?cs' = "if list_ex (isin mapping) cs then fillna ?ma (series_mean ?ma)
                else fillna ?co (series_mean ?co)"
    have r: "col (normalize parse data) c' = Some ?cs'"
      by (rule normalize_numeric_col[OF a b])
    have l: "length ?cs' = length cs" by (simp add: fillna_def)
    have k: "\<not> list_ex (isin mapping) cs \<longrightarrow>
                  (\<forall>i<length cs.
                     (is_num (cs ! i) \<longrightarrow> ?cs' ! i = cs ! i) \<and>
                     (\<forall>s x. cs ! i = Str s \<longrightarrow> parse s = Some x \<longrightarrow> ?cs' ! i = Num x) \<and>
                     (coerce parse (cs ! i) = NaN \<longrightarrow>
                        ?cs' ! i = series_mean (map (coerce parse) cs))) \<and>
                  (list_all is_num cs \<longrightarrow> ?cs' = cs)"
    proof (intro impI conjI allI)
      fix i
      assume no: "\<not> list_ex (isin mapping) cs" and i: "i < length cs"
      from no have e: "?cs' = fillna ?co (series_mean ?co)" by simp
      from i have n: "?cs' ! i = (if isna (coerce parse (cs ! i)) then series_mean ?co
                                  else coerce parse (cs ! i))"
        unfolding e by (simp add: fillna_nth)
      { assume "is_num (cs ! i)"
        then obtain x where "cs ! i = Num x" by (cases "cs ! i") simp_all
        with n show "?cs' ! i = cs ! i" by simp }
      { fix s x assume "cs ! i = Str s" and "parse s = Some x"
        with n show "?cs' ! i = Num x" by simp }
      { assume "coerce parse (cs ! i) = NaN"
        with n show "?cs' ! i = series_mean (map (coerce parse) cs)" by simp }
    next
      assume no: "\<not> list_ex (isin mapping) cs" and num: "list_all is_num cs"
      from no have "?cs' = fillna ?co (series_mean ?co)" by simp
      also have "\<dots> = (if list_ex isna ?co then fillna ?co (series_mean ?co) else ?co)"
        by (simp only: fillna_if)
      also have "\<dots> = cs"
        unfolding all_num_facts(1)[OF num] using all_num_facts(2)[OF num] by simp
      finally show "?cs' = cs" .
    qed
    have h: "list_ex (isin mapping) cs \<longrightarrow>
                  (\<forall>i<length cs.
                     (\<forall>s x. cs ! i = Str s \<longrightarrow> map_of mapping s = Some x \<longrightarrow> ?cs' ! i = Num x) \<and>
                     (\<not> isin mapping (cs ! i) \<longrightarrow>
                        ?cs' ! i = series_mean (map (map_cell mapping) cs)))"
    proof (intro impI conjI allI)
      fix i s x
      assume yes: "list_ex (isin mapping) cs" and i: "i < length cs"
        and "cs ! i = Str s" and "map_of mapping s = Some x"
      moreover from yes have "?cs' = fillna ?ma (series_mean ?ma)" by simp
      ultimately show "?cs' ! i = Num x" by (simp add: fillna_nth)
    next
      fix i
      assume yes: "list_ex (isin mapping) cs" and i: "i < length cs"
        and "\<not> isin mapping (cs ! i)"
      then have "map_cell mapping (cs ! i) = NaN" by (simp add: map_cell_na)
      moreover from yes have "?cs' = fillna ?ma (series_mean ?ma)" by simp
      ultimately show "?cs' ! i = series_mean (map (map_cell mapping) cs)"
        using i by (simp add: fillna_nth)
    qed
    from r l k h show "\<exists>cs'. col (normalize parse data) c' = Some cs' \<and> length cs' = length cs \<and>
               (\<not> list_ex (isin mapping) cs \<longrightarrow>
                  (\<forall>i<length cs.
                     (is_num (cs ! i) \<longrightarrow> cs' ! i = cs ! i) \<and>
                     (\<forall>s x. cs ! i = Str s \<longrightarrow> parse s = Some x \<longrightarrow> cs' ! i = Num x) \<and>
                     (coerce parse (cs ! i) = NaN \<longrightarrow>
                        cs' ! i = series_mean (map (coerce parse) cs))) \<and>
                  (list_all is_num cs \<longrightarrow> cs' = cs)) \<and>
               (list_ex (isin mapping) cs \<longrightarrow>
                  (\<forall>i<length cs.
                     (\<forall>s x. cs ! i = Str s \<longrightarrow> map_of mapping s = Some x \<longrightarrow> cs' ! i = Num x) \<and>
                     (\<not> isin mapping (cs ! i) \<longrightarrow>
                        cs' ! i = series_mean (map (map_cell mapping) cs))))"
      by (intro exI[of _ ?cs'] conjI)
  qed
  from p1 p2 p3 p4 p5 show ?thesis by (intro conjI)
qed

theorem missing_column_defaults_witness:
  "col (normalize (\<lambda>s. None)
          \<lparr>nrows = 2, columns = [(''Waste_Type'', [Str ''Food'', Str ''Paper'']),
                                 (''pH_Level'', [Str ''High'', Num 7])]\<rparr>)
     ''Moisture_Content'' = Some [Num 50, Num 50] \<and>
   col (normalize (\<lambda>s. None)
          \<lparr>nrows = 2, columns = [(''Waste_Type'', [Str ''Food'', Str ''Paper'']),
                                 (''pH_Level'', [Str ''High'', Num 7])]\<rparr>)
     ''Waste_Type'' = Some [Str ''Food'', Str ''Paper''] \<and>
   (\<exists>cs'. col (normalize (\<lambda>s. None)
          \<lparr>nrows = 2, columns = [(''Waste_Type'', [Str ''Food'', Str ''Paper'']),
                                 (''pH_Level'', [Str ''High'', Num 7])]\<rparr>)
     ''pH_Level'' = Some cs' \<and> length cs' = 2 \<and> cs' ! 0 = Num 8.5 \<and> cs' ! 1 = Num 8.5)"
proof -
  let ?t = "\<lparr>nrows = 2, columns = [(''Waste_Type'', [Str ''Food'', Str ''Paper'']),
                                 (''pH_Level'', [Str ''High'', Num 7])]\<rparr>"
  let ?m = "[(''Low'', 4.5), (''Medium'', 6.5), (''High'', 8.5)] :: (string \<times> real) list"
  have h1: "(''Moisture_Content'', Num 50) \<in> set DEFAULT_VALUES" by (simp add: DEFAULT_VALUES_def)
  have h2: "col ?t ''Moisture_Content'' = None" by (simp add: col_def)
  have h3: "''Waste_Type'' \<notin> set numeric_columns" by (simp add: numeric_columns_def)
  have h4: "col ?t ''Waste_Type'' = Some [Str ''Food'', Str ''Paper'']" by (simp add: col_def)
  have h5: "(''pH_Level'', ?m) \<in> set CATEGORICAL_MAPPINGS" by (simp add: CATEGORICAL_MAPPINGS_def)
  have h6: "col ?t ''pH_Level'' = Some [Str ''High'', Num 7]" by (simp add: col_def)
  have h7: "list_ex (isin ?m) [Str ''High'', Num 7]" by simp
  have h8: "series_mean (map (map_cell ?m) [Str ''High'', Num 7]) = Num 8.5"
    by (simp add: series_mean_def)
  have r: "replicate (nrows ?t) (Num 50) = [Num 50, Num 50]" by (simp add: numeral_2_eq_2)
  note th = missing_column_defaults[OF h1 h2, of "\<lambda>s. None"]
  from th have a: "col (normalize (\<lambda>s. None) ?t) ''Moisture_Content'' = Some (replicate (nrows ?t) (Num 50))"
    by blast
  from th have b: "\<forall>c' cs. c' \<notin> set numeric_columns \<longrightarrow> col ?t c' = Some cs \<longrightarrow>
            col (normalize (\<lambda>s. None) ?t) c' = Some cs"
    by blast
  from th have c: "\<forall>c' mapping cs. (c', mapping) \<in> set CATEGORICAL_MAPPINGS \<longrightarrow> col ?t c' = Some cs \<longrightarrow>
            (\<exists>cs'. col (normalize (\<lambda>s. None) ?t) c' = Some cs' \<and> length cs' = length cs \<and>
               (list_ex (isin mapping) cs \<longrightarrow>
                  (\<forall>i<length cs.
                     (\<forall>s x. cs ! i = Str s \<longrightarrow> map_of mapping s = Some x \<longrightarrow> cs' ! i = Num x) \<and>
                     (\<not> isin mapping (cs ! i) \<longrightarrow>
                        cs' ! i = series_mean (map (map_cell mapping) cs)))))"
    by blast
  from b h3 h4 have w: "col (normalize (\<lambda>s. None) ?t) ''Waste_Type'' = Some [Str ''Food'', Str ''Paper'']"
    by blast
  from c h5 h6 h7 obtain cs' where
    p: "col (normalize (\<lambda>s. None) ?t) ''pH_Level'' = Some cs'"
    and l: "length cs' = length [Str ''High'', Num (7::real)]"
    and rows: "\<forall>i<length [Str ''High'', Num (7::real)].
                     (\<forall>s x. [Str ''High'', Num 7] ! i = Str s \<longrightarrow> map_of ?m s = Some x \<longrightarrow> cs' ! i = Num x) \<and>
                     (\<not> isin ?m ([Str ''High'', Num 7] ! i) \<longrightarrow>
                        cs' ! i = series_mean (map (map_cell ?m) [Str ''High'', Num 7]))"
    by blast
  from rows have "cs' ! 0 = Num 8.5" by simp
  moreover from rows have "cs' ! 1 = series_mean (map (map_cell ?m) [Str ''High'', Num 7])"
    by simp
  ultimately have "cs' ! 0 = Num 8.5 \<and> cs' ! 1 = Num 8.5" unfolding h8 by simp
  with p l a r w show ?thesis by simp
qed

text \<open>
  Claim C8.  Normalization, the categorical conversion followed by the missing-data
  handling, returns its input table when the seven expected columns are present and the
  six numeric columns hold numbers only.
\<close>

theorem normalize_identity:
  assumes present: "\<forall>c\<in>set (map fst DEFAULT_VALUES). col data c \<noteq> None"
    and numeric: "\<forall>c\<in>set numeric_columns. \<forall>cs. col data c = Some cs \<longrightarrow> list_all is_num cs"
  shows "normalize parse data = data"
proof -
  from numeric have "\<forall>c\<in>fst ` set CATEGORICAL_MAPPINGS. \<forall>cs. col data c = Some cs \<longrightarrow> list_all is_num cs"
    unfolding mapping_keys .
  then have c: "convert_categorical_to_numeric data = data"
    unfolding convert_categorical_to_numeric_def by (rule convert_loop_id)
  from present have "\<forall>c\<in>fst ` set DEFAULT_VALUES. col data c \<noteq> None" by simp
  then have f: "fill_columns DEFAULT_VALUES data = data" by (rule fill_columns_id)
  from numeric have n: "numeric_loop parse numeric_columns data = data" by (rule numeric_loop_id)
  show ?thesis unfolding normalize_def handle_missing_data_def c f n ..
qed

theorem normalize_identity_witness:
  "normalize (\<lambda>s. None)
     \<lparr>nrows = 1, columns = [(''Waste_Type'', [Str ''Food'']), (''Moisture_Content'', [Num 60]),
        (''pH_Level'', [Num 7]), (''Carbon_Content'', [Num 40]), (''Particle_Size_mm'', [Num 5]),
        (''Age_Days'', [Num 20]), (''Degradation_Rate'', [Num 1.5])]\<rparr> =
     \<lparr>nrows = 1, columns = [(''Waste_Type'', [Str ''Food'']), (''Moisture_Content'', [Num 60]),
        (''pH_Level'', [Num 7]), (''Carbon_Content'', [Num 40]), (''Particle_Size_mm'', [Num 5]),
        (''Age_Days'', [Num 20]), (''Degradation_Rate'', [Num 1.5])]\<rparr>"
proof -
  let ?t = "\<lparr>nrows = 1, columns = [(''Waste_Type'', [Str ''Food'']), (''Moisture_Content'', [Num 60]),
        (''pH_Level'', [Num 7]), (''Carbon_Content'', [Num 40]), (''Particle_Size_mm'', [Num 5]),
        (''Age_Days'', [Num 20]), (''Degradation_Rate'', [Num 1.5])]\<rparr>"
  have h1: "\<forall>c\<in>set (map fst DEFAULT_VALUES). col ?t c \<noteq> None"
    by (simp add: DEFAULT_VALUES_def col_def)
  have h2: "\<forall>c\<in>set numeric_columns. \<forall>cs. col ?t c = Some cs \<longrightarrow> list_all is_num cs"
    by (simp add: numeric_columns_def col_def)
  from normalize_identity[OF h1 h2] show ?thesis .
qed


section \<open>Properties of the synthetic targets\<close>

lemma times_num:
  assumes "list_all is_num cs"
  shows "times cs k = Inr (map (\<lambda>c. map_option (\<lambda>x. x * k) (cell_value c)) cs)"
  using all_num_facts(3)[OF assms] by (simp add: times_def dtype_object_def)






lemma set_nitrogen_ok:
  assumes "col t ''Waste_Type'' = Some w"
    and "col t ''Moisture_Content'' = Some m" and "list_all is_num m"
    and "col t ''pH_Level'' = Some p" and "list_all is_num p"
  shows "set_nitrogen d t =
     Inr (set_col t ''Nitrogen_pct''
            (nitrogen_series d w (map (\<lambda>c. map_option (\<lambda>x. x * 0.01) (cell_value c)) m)
                                  (map (\<lambda>c. map_option (\<lambda>x. x * 0.1) (cell_value c)) p)))"
  using assms by (simp add: set_nitrogen_def and_then_def get_col_def times_num)

lemma set_phosphorus_ok:
  assumes "col t ''Waste_Type'' = Some w"
    and "col t ''Carbon_Content'' = Some c" and "list_all is_num c"
  shows "set_phosphorus d t =
     Inr (set_col t ''Phosphorus_pct''
            (phosphorus_series d w (map (\<lambda>c. map_option (\<lambda>x. x * 0.005) (cell_value c)) c)))"
  using assms by (simp add: set_phosphorus_def and_then_def get_col_def times_num)

lemma set_potassium_ok:
  assumes "col t ''Waste_Type'' = Some w"
    and "col t ''Moisture_Content'' = Some m" and "list_all is_num m"
  shows "set_potassium d t =
     Inr (set_col t ''Potassium_pct''
            (potassium_series d w (map (\<lambda>c. map_option (\<lambda>x. x * 0.008) (cell_value c)) m)))"
  using assms by (simp add: set_potassium_def and_then_def get_col_def times_num)

lemma and_then_Inr: "and_then (Inr x) f = f x"
  by (simp add: and_then_def)

lemma generate_result:
  assumes w: "col data ''Waste_Type'' = Some w"
    and m: "col data ''Moisture_Content'' = Some m" and mn: "list_all is_num m"
    and p: "col data ''pH_Level'' = Some p" and pn: "list_all is_num p"
    and c: "col data ''Carbon_Content'' = Some c" and cn: "list_all is_num c"
  shows "generate_synthetic_targets d data =
     Inr (set_col
           (set_col
             (set_col data ''Nitrogen_pct''
                (nitrogen_series d w (map (\<lambda>c. map_option (\<lambda>x. x * 0.01) (cell_value c)) m)
                                      (map (\<lambda>c. map_option (\<lambda>x. x * 0.1) (cell_value c)) p)))
             ''Phosphorus_pct''
                (phosphorus_series d w (map (\<lambda>c. map_option (\<lambda>x. x * 0.005) (cell_value c)) c)))
           ''Potassium_pct''
              (potassium_series d w (map (\<lambda>c. map_option (\<lambda>x. x * 0.008) (cell_value c)) m)))"
proof -
  let ?ns = "nitrogen_series d w (map (\<lambda>c. map_option (\<lambda>x. x * 0.01) (cell_value c)) m)
                                      (map (\<lambda>c. map_option (\<lambda>x. x * 0.1) (cell_value c)) p)"
  let ?ps = "phosphorus_series d w (map (\<lambda>c. map_option (\<lambda>x. x * 0.005) (cell_value c)) c)"
  let ?d1 = "set_col data ''Nitrogen_pct'' ?ns"
  let ?d2 = "set_col ?d1 ''Phosphorus_pct'' ?ps"
  have s1: "set_nitrogen d data = Inr ?d1"
    by (rule set_nitrogen_ok[OF w m mn p pn])
  have w1: "col ?d1 ''Waste_Type'' = Some w"
    unfolding col_set_col using w by simp
  have c1: "col ?d1 ''Carbon_Content'' = Some c"
    unfolding col_set_col using c by simp
  have m1: "col ?d1 ''Moisture_Content'' = Some m"
    unfolding col_set_col using m by simp
  have s2: "set_phosphorus d ?d1 = Inr ?d2"
    by (rule set_phosphorus_ok[OF w1 c1 cn])
  have w2: "col ?d2 ''Waste_Type'' = Some w"
    unfolding col_set_col[of ?d1] using w1 by simp
  have m2: "col ?d2 ''Moisture_Content'' = Some m"
    unfolding col_set_col[of ?d1] using m1 by simp
  have s3: "set_potassium d ?d2 = Inr (set_col ?d2 ''Potassium_pct''
              (potassium_series d w (map (\<lambda>c. map_option (\<lambda>x. x * 0.008) (cell_value c)) m)))"
    by (rule set_potassium_ok[OF w2 m2 mn])
  show ?thesis
    unfolding generate_synthetic_targets_def s1 and_then_Inr s2 s3 ..
qed






subsection \<open>The cells of a normalized numeric column\<close>










subsection \<open>The synthesized values, row by row\<close>

lemma scaled_nth:
  assumes "i < length cs"
  shows "map (\<lambda>c. map_option (\<lambda>x. x * k) (cell_value c)) cs ! i =
         map_option (\<lambda>x. x * k) (cell_value (cs ! i))"
  using assms by simp


lemma cell_value_num: "cell_value c \<noteq> None \<longleftrightarrow> is_num c"
  by (cases c) simp_all












section \<open>Properties of the Train Model handler\<close>

text \<open>
  Claim C5 says that only the missing targets are synthesized and that a target column
  already present keeps its values.  With \<open>Nitrogen_pct\<close> present and the two other
  targets missing, the generator is called and overwrites \<open>Nitrogen_pct\<close> as well.
\<close>

theorem present_target_overwritten_counterexample:
  "map_sum id (\<lambda>t. col t ''Nitrogen_pct'')
     (prepare_targets
        \<lparr>nitrogen_food = (\<lambda>i. 2), nitrogen_garden = (\<lambda>i. 1),
         phosphorus_food = (\<lambda>i. 0.5), potassium_food = (\<lambda>i. 1.5)\<rparr>
        \<lparr>nrows = 1, columns = [(''Waste_Type'', [Str ''Paper'']), (''Moisture_Content'', [Num 50]),
           (''pH_Level'', [Num 6.5]), (''Carbon_Content'', [Num 35]), (''Nitrogen_pct'', [Num 2])]\<rparr>)
   = Inr (Some [Num 0.05])"
proof -
  let ?d = "\<lparr>nitrogen_food = (\<lambda>i. 2), nitrogen_garden = (\<lambda>i. 1),
         phosphorus_food = (\<lambda>i. 0.5), potassium_food = (\<lambda>i. 1.5)\<rparr>"
  let ?t = "\<lparr>nrows = 1, columns = [(''Waste_Type'', [Str ''Paper'']), (''Moisture_Content'', [Num 50]),
           (''pH_Level'', [Num 6.5]), (''Carbon_Content'', [Num 35]), (''Nitrogen_pct'', [Num 2])]\<rparr>"
  have w: "col ?t ''Waste_Type'' = Some [Str ''Paper'']" by (simp add: col_def)
  have m: "col ?t ''Moisture_Content'' = Some [Num 50]" by (simp add: col_def)
  have p: "col ?t ''pH_Level'' = Some [Num 6.5]" by (simp add: col_def)
  have c: "col ?t ''Carbon_Content'' = Some [Num 35]" by (simp add: col_def)
  have n1: "list_all is_num [Num 50]" and n2: "list_all is_num [Num 6.5]"
    and n3: "list_all is_num [Num 35]" by simp_all
  have missing: "\<not> list_all (\<lambda>target. col ?t target \<noteq> None) target_variables"
    by (simp add: target_variables_def col_def)
  have ser: "nitrogen_series ?d [Str ''Paper'']
               (map (\<lambda>c. map_option (\<lambda>x. x * 0.01) (cell_value c)) [Num 50])
               (map (\<lambda>c. map_option (\<lambda>x. x * 0.1) (cell_value c)) [Num 6.5]) = [Num 0.05]"
    by (simp add: nitrogen_series_def indicator_def)
  show ?thesis
    unfolding prepare_targets_def generate_result[OF w m n1 p n2 c n3] ser
    using missing by (simp add: col_set_col)
qed

text \<open>
  Claim C5, amended.  The generator is called only when one of the three target columns
  is missing: with the three present the data is left as it is.  When it is called (on a
  feature table) it writes all three target columns from the features and the draws,
  whether they were present or not, and leaves every other column and the number of
  rows unchanged.
\<close>

theorem synthetic_targets_replace_all:
  assumes w: "col data ''Waste_Type'' = Some w"
    and m: "col data ''Moisture_Content'' = Some m" and mn: "list_all is_num m"
    and p: "col data ''pH_Level'' = Some p" and pn: "list_all is_num p"
    and c: "col data ''Carbon_Content'' = Some c" and cn: "list_all is_num c"
  shows "(list_all (\<lambda>target. col data target \<noteq> None) target_variables \<longrightarrow>
            prepare_targets d data = Inr data) \<and>
         (\<not> list_all (\<lambda>target. col data target \<noteq> None) target_variables \<longrightarrow>
            (\<exists>data'. prepare_targets d data = Inr data' \<and>
               col data' ''Nitrogen_pct'' =
                 Some (nitrogen_series d w (map (\<lambda>c. map_option (\<lambda>x. x * 0.01) (cell_value c)) m)
                                             (map (\<lambda>c. map_option (\<lambda>x. x * 0.1) (cell_value c)) p)) \<and>
               col data' ''Phosphorus_pct'' =
                 Some (phosphorus_series d w (map (\<lambda>c. map_option (\<lambda>x. x * 0.005) (cell_value c)) c)) \<and>
               col data' ''Potassium_pct'' =
                 Some (potassium_series d w (map (\<lambda>c. map_option (\<lambda>x. x * 0.008) (cell_value c)) m)) \<and>
               (\<forall>c'. c' \<notin> set target_variables \<longrightarrow> col data' c' = col data c') \<and>
               nrows data' = nrows data))"
proof -
  let ?ns = "nitrogen_series d w (map (\<lambda>c. map_option (\<lambda>x. x * 0.01) (cell_value c)) m)
                                      (map (\<lambda>c. map_option (\<lambda>x. x * 0.1) (cell_value c)) p)"
  let ?ps = "phosphorus_series d w (map (\<lambda>c. map_option (\<lambda>x. x * 0.005) (cell_value c)) c)"
  let ?ks = "potassium_series d w (map (\<lambda>c. map_option (\<lambda>x. x * 0.008) (cell_value c)) m)"
  let ?r = "set_col (set_col (set_col data ''Nitrogen_pct'' ?ns) ''Phosphorus_pct'' ?ps)
              ''Potassium_pct'' ?ks"
  have a: "list_all (\<lambda>target. col data target \<noteq> None) target_variables \<longrightarrow>
            prepare_targets d data = Inr data"
    by (simp add: prepare_targets_def)
  have run: "\<not> list_all (\<lambda>target. col data target \<noteq> None) target_variables \<Longrightarrow>
      prepare_targets d data = Inr ?r"
    unfolding prepare_targets_def generate_result[OF w m mn p pn c cn] by simp
  have cn': "col ?r ''Nitrogen_pct'' = Some ?ns" by (simp add: col_set_col)
  have cp': "col ?r ''Phosphorus_pct'' = Some ?ps" by (simp add: col_set_col)
  have ck': "col ?r ''Potassium_pct'' = Some ?ks" by (simp add: col_set_col)
  have fr: "\<forall>c'. c' \<notin> set target_variables \<longrightarrow> col ?r c' = col data c'"
    by (simp add: col_set_col target_variables_def)
  have nr: "nrows ?r = nrows data" by (simp add: nrows_set_col)
  from run cn' cp' ck' fr nr
  have b: "\<not> list_all (\<lambda>target. col data target \<noteq> None) target_variables \<longrightarrow>
            (\<exists>data'. prepare_targets d data = Inr data' \<and>
               col data' ''Nitrogen_pct'' = Some ?ns \<and>
               col data' ''Phosphorus_pct'' = Some ?ps \<and>
               col data' ''Potassium_pct'' = Some ?ks \<and>
               (\<forall>c'. c' \<notin> set target_variables \<longrightarrow> col data' c' = col data c') \<and>
               nrows data' = nrows data)"
    by blast
  from a b show ?thesis by (rule conjI)
qed

theorem synthetic_targets_replace_all_witness:
  "prepare_targets
     \<lparr>nitrogen_food = (\<lambda>i. 2), nitrogen_garden = (\<lambda>i. 1),
      phosphorus_food = (\<lambda>i. 0.5), potassium_food = (\<lambda>i. 1.5)\<rparr>
     \<lparr>nrows = 1, columns = [(''Waste_Type'', [Str ''Food'']), (''Moisture_Content'', [Num 50]),
        (''pH_Level'', [Num 6.5]), (''Carbon_Content'', [Num 35]), (''Nitrogen_pct'', [Num 2]),
        (''Phosphorus_pct'', [Num 1]), (''Potassium_pct'', [Num 1])]\<rparr> =
   Inr \<lparr>nrows = 1, columns = [(''Waste_Type'', [Str ''Food'']), (''Moisture_Content'', [Num 50]),
        (''pH_Level'', [Num 6.5]), (''Carbon_Content'', [Num 35]), (''Nitrogen_pct'', [Num 2]),
        (''Phosphorus_pct'', [Num 1]), (''Potassium_pct'', [Num 1])]\<rparr>"
proof -
  let ?t = "\<lparr>nrows = 1, columns = [(''Waste_Type'', [Str ''Food'']), (''Moisture_Content'', [Num 50]),
        (''pH_Level'', [Num 6.5]), (''Carbon_Content'', [Num 35]), (''Nitrogen_pct'', [Num 2]),
        (''Phosphorus_pct'', [Num 1]), (''Potassium_pct'', [Num 1])]\<rparr>"
  have w: "col ?t ''Waste_Type'' = Some [Str ''Food'']" by (simp add: col_def)
  have m: "col ?t ''Moisture_Content'' = Some [Num 50]" by (simp add: col_def)
  have p: "col ?t ''pH_Level'' = Some [Num 6.5]" by (simp add: col_def)
  have c: "col ?t ''Carbon_Content'' = Some [Num 35]" by (simp add: col_def)
  have n1: "list_all is_num [Num 50]" and n2: "list_all is_num [Num 6.5]"
    and n3: "list_all is_num [Num 35]" by simp_all
  have present: "list_all (\<lambda>target. col ?t target \<noteq> None) target_variables"
    by (simp add: target_variables_def col_def)
  from synthetic_targets_replace_all[OF w m n1 p n2 c n3] present show ?thesis by blast
qed












end
